theory Spec2Isabelle
  imports Complex_Main "HOL-Library.AList" "HOL-Library.Log_Nat"
begin

section \<open>Values of the host language\<close>

text \<open>
  The caster of \<^verbatim>\<open>tps-caster.ts\<close> works on JavaScript values. A Number is a
  double: not-a-number, an infinity, or a finite value, kept here as the rational
  it is exactly equal to (the two zeros are identified, as \<^verbatim>\<open>===\<close> does).
\<close>

datatype jsnum = NaN | PosInfinity | NegInfinity | Finite rat

text \<open>
  Records are finite trees: an object is the list of its own enumerable properties
  in the order \<^verbatim>\<open>for ... in\<close> visits them, an array the list of its elements, a
  Date its time value in milliseconds. No object is reachable along two paths, so
  what a call does to the object it was given is described by the value that
  object holds after the call. Strings are lists of code units below 256.
  Own properties named \<^verbatim>\<open>__proto__\<close> are outside the model.
\<close>

datatype jsval =
    JUndefined
  | JNull
  | JBool bool
  | JNum jsnum
  | JStr string
  | JDate jsnum
  | JArr "jsval list"
  | JObj "(string \<times> jsval) list"

fun typeof :: "jsval \<Rightarrow> string" where
  "typeof JUndefined = ''undefined''"
| "typeof JNull = ''object''"
| "typeof (JBool b) = ''boolean''"
| "typeof (JNum n) = ''number''"
| "typeof (JStr s) = ''string''"
| "typeof (JDate t) = ''object''"
| "typeof (JArr xs) = ''object''"
| "typeof (JObj fs) = ''object''"

definition isNaN :: "jsnum \<Rightarrow> bool" where
  "isNaN n = (n = NaN)"

text \<open>\<^verbatim>\<open>!val\<close> is true of undefined, null, false, zero, NaN and the empty string.\<close>

fun truthy :: "jsval \<Rightarrow> bool" where
  "truthy JUndefined = False"
| "truthy JNull = False"
| "truthy (JBool b) = b"
| "truthy (JNum n) = (if n = NaN then False else if n = Finite 0 then False else True)"
| "truthy (JStr s) = (if s = [] then False else True)"
| "truthy (JDate t) = True"
| "truthy (JArr xs) = True"
| "truthy (JObj fs) = True"

section \<open>Options\<close>

datatype schemaType = TString | TNumber | TDate | TBoolean | TObject

text \<open>A schema maps a field name to a target type or to a boolean.\<close>

datatype schemaEntry = SBool bool | SType schemaType

type_synonym schema = "(string \<times> schemaEntry) list"

text \<open>A regular expression is used through \<^verbatim>\<open>test\<close> only (no global or sticky flag).\<close>

type_synonym regex = "string \<Rightarrow> bool"

text \<open>
  \<^verbatim>\<open>Partial<TpsCasterOptions>\<close>: every field may be missing. An instance of
  \<^verbatim>\<open>TpsCasterOptions\<close> passed as options is the partial object with every field
  set: \<^verbatim>\<open>cast\<close> reads its fields only. \<^verbatim>\<open>numberMaxChars\<close> is an integer.
\<close>

record partialFlags =
  p_enableAll :: "bool option"
  p_onlySchema :: "bool option"
  p_rewriteFields :: "bool option"
  p_stringsToNumbers :: "bool option"
  p_numberMaxChars :: "int option"
  p_stringsToDates :: "bool option"
  p_datesMatchRegex :: "regex list option"
  p_stringsToBooleans :: "bool option"
  p_stringsToObjects :: "bool option"
  p_schema :: "schema option"

datatype partialOptions =
  PartialOptions (flags: partialFlags) (p_deepCasters: "(string \<times> partialOptions) list option")

definition noFlags :: partialFlags where
  "noFlags = \<lparr> p_enableAll = None, p_onlySchema = None, p_rewriteFields = None,
     p_stringsToNumbers = None, p_numberMaxChars = None, p_stringsToDates = None,
     p_datesMatchRegex = None, p_stringsToBooleans = None, p_stringsToObjects = None,
     p_schema = None \<rparr>"

record casterOptions =
  enableAll :: bool
  onlySchema :: bool
  rewriteFields :: bool
  stringsToNumbers :: bool
  numberMaxChars :: int
  stringsToDates :: bool
  datesMatchRegex :: "regex list"
  stringsToBooleans :: bool
  stringsToObjects :: bool
  schema :: "schema option"
  deepCasters :: "(string \<times> partialOptions) list option"

subsection \<open>The default date pattern\<close>

text \<open>
  \<^verbatim>\<open>/^(?:(\d{4}-\d{2}-\d{2})(?:T\d{2}:\d{2}:\d{2}Z)?)|(?:\d{2}-\d{2}-(?:\d{2}|\d{4}))$/\<close>:
  the alternation binds weaker than the anchors, so the pattern matches a string
  that starts with \<^verbatim>\<open>dddd-dd-dd\<close> or that ends with \<^verbatim>\<open>dd-dd-dd\<close> or
  \<^verbatim>\<open>dd-dd-dddd\<close>.
\<close>

definition isDigit :: "char \<Rightarrow> bool" where
  "isDigit c = (c \<in> set ''0123456789'')"

fun matchesShape :: "string \<Rightarrow> string \<Rightarrow> bool" where
  "matchesShape [] [] = True"
| "matchesShape (p # ps) (c # cs) =
     ((if p = CHR ''d'' then isDigit c else c = p) \<and> matchesShape ps cs)"
| "matchesShape _ _ = False"

definition startsWithShape :: "string \<Rightarrow> string \<Rightarrow> bool" where
  "startsWithShape p s = matchesShape p (take (length p) s)"

definition endsWithShape :: "string \<Rightarrow> string \<Rightarrow> bool" where
  "endsWithShape p s = matchesShape p (drop (length s - length p) s)"

definition datesMatchRegexDefault :: "regex list" where
  "datesMatchRegexDefault =
     [\<lambda>s. startsWithShape ''dddd-dd-dd'' s
        \<or> endsWithShape ''dd-dd-dd'' s \<or> endsWithShape ''dd-dd-dddd'' s]"

subsection \<open>Construction and the enable-all shortcut\<close>

text \<open>The class field initialisers.\<close>

definition defaultOptions :: casterOptions where
  "defaultOptions = \<lparr> enableAll = False, onlySchema = False, rewriteFields = False,
     stringsToNumbers = False, numberMaxChars = 8, stringsToDates = False,
     datesMatchRegex = datesMatchRegexDefault, stringsToBooleans = False,
     stringsToObjects = False, schema = None, deepCasters = None \<rparr>"

text \<open>
  \<^verbatim>\<open>enableAllApply(val?: boolean)\<close>: returns at once when \<^verbatim>\<open>val\<close> is undefined,
  otherwise sets the four toggles to \<^verbatim>\<open>val\<close>.
\<close>

definition enableAllApply :: "casterOptions \<Rightarrow> bool option \<Rightarrow> casterOptions" where
  "enableAllApply this val =
     (case val of
        None \<Rightarrow> this
      | Some v \<Rightarrow> this\<lparr> stringsToNumbers := v, stringsToDates := v,
                        stringsToBooleans := v, stringsToObjects := v \<rparr>)"

text \<open>\<^verbatim>\<open>Object.assign(this, options)\<close>: every field the partial object has is copied.\<close>

definition assignOptions :: "casterOptions \<Rightarrow> partialOptions \<Rightarrow> casterOptions" where
  "assignOptions this p =
     (let f = flags p in
      \<lparr> enableAll = (case p_enableAll f of None \<Rightarrow> enableAll this | Some v \<Rightarrow> v),
        onlySchema = (case p_onlySchema f of None \<Rightarrow> onlySchema this | Some v \<Rightarrow> v),
        rewriteFields = (case p_rewriteFields f of None \<Rightarrow> rewriteFields this | Some v \<Rightarrow> v),
        stringsToNumbers =
          (case p_stringsToNumbers f of None \<Rightarrow> stringsToNumbers this | Some v \<Rightarrow> v),
        numberMaxChars = (case p_numberMaxChars f of None \<Rightarrow> numberMaxChars this | Some v \<Rightarrow> v),
        stringsToDates = (case p_stringsToDates f of None \<Rightarrow> stringsToDates this | Some v \<Rightarrow> v),
        datesMatchRegex =
          (case p_datesMatchRegex f of None \<Rightarrow> datesMatchRegex this | Some v \<Rightarrow> v),
        stringsToBooleans =
          (case p_stringsToBooleans f of None \<Rightarrow> stringsToBooleans this | Some v \<Rightarrow> v),
        stringsToObjects =
          (case p_stringsToObjects f of None \<Rightarrow> stringsToObjects this | Some v \<Rightarrow> v),
        schema = (case p_schema f of None \<Rightarrow> schema this | Some v \<Rightarrow> Some v),
        deepCasters = (case p_deepCasters p of None \<Rightarrow> deepCasters this | Some v \<Rightarrow> Some v) \<rparr>)"

text \<open>
  The constructor: \<^verbatim>\<open>if(options) Object.assign(this, options);
  if(options?.enableAll) this.enableAllApply();\<close>
\<close>

definition newTpsCasterOptions :: "partialOptions option \<Rightarrow> casterOptions" where
  "newTpsCasterOptions options =
     (let this = (case options of None \<Rightarrow> defaultOptions
                   | Some p \<Rightarrow> assignOptions defaultOptions p)
      in if (case options of None \<Rightarrow> False | Some p \<Rightarrow> p_enableAll (flags p) = Some True)
         then enableAllApply this None
         else this)"

text \<open>
  The first two statements of \<^verbatim>\<open>cast\<close> after the guard:
  \<^verbatim>\<open>opts = options instanceof TpsCasterOptions ? options : new TpsCasterOptions(options);
  opts.enableAllApply();\<close>
\<close>

definition resolveOptions :: "partialOptions option \<Rightarrow> casterOptions" where
  "resolveOptions options = enableAllApply (newTpsCasterOptions options) None"

section \<open>Built-in operations of the host\<close>

text \<open>
  The caster calls five operations of the language's standard library. Their
  results are taken from a \<open>host\<close>, so that what is proved of the caster for every
  host holds whatever these operations return:
  \<^item> \<open>Number\<close>: \<^verbatim>\<open>Number(val)\<close> of a string;
  \<^item> \<open>parseDate\<close>: the time value of \<^verbatim>\<open>new Date(val)\<close> for a string (NaN: invalid);
  \<^item> \<open>JSON_parse\<close>: \<^verbatim>\<open>JSON.parse(val)\<close>, \<open>None\<close> when it throws a SyntaxError;
  \<^item> \<open>JSON_stringify\<close>: \<^verbatim>\<open>JSON.stringify(val)\<close>, a string or undefined;
  \<^item> \<open>numberToString\<close>: \<^verbatim>\<open>val.toString()\<close> of a number.
\<close>

record host =
  Number :: "string \<Rightarrow> jsnum"
  parseDate :: "string \<Rightarrow> jsnum"
  JSON_parse :: "string \<Rightarrow> jsval option"
  JSON_stringify :: "jsval \<Rightarrow> jsval"
  numberToString :: "jsnum \<Rightarrow> string"

text \<open>\<^verbatim>\<open>String.prototype.toLowerCase\<close> on the letters A to Z.\<close>

definition lowerChar :: "char \<Rightarrow> char" where
  "lowerChar c =
     (case map_of (zip ''ABCDEFGHIJKLMNOPQRSTUVWXYZ'' ''abcdefghijklmnopqrstuvwxyz'') c of
        None \<Rightarrow> c | Some l \<Rightarrow> l)"

definition toLowerCase :: "string \<Rightarrow> string" where
  "toLowerCase s = map lowerChar s"

text \<open>
  The time value of \<^verbatim>\<open>new Date(n)\<close> for a number: not finite or beyond
  8.64e15 milliseconds gives an invalid date, otherwise the fraction is dropped.
\<close>

fun timeClip :: "jsnum \<Rightarrow> jsnum" where
  "timeClip (Finite q) =
     (if 8640000000000000 < \<bar>q\<bar> then NaN
      else Finite (of_int (if 0 \<le> q then \<lfloor>q\<rfloor> else \<lceil>q\<rceil>)))"
| "timeClip n = NaN"

text \<open>The decimal text of an array index.\<close>

fun indexKey :: "nat \<Rightarrow> string" where
  "indexKey n =
     (if n < 10 then [''0123456789'' ! n]
      else indexKey (n div 10) @ [''0123456789'' ! (n mod 10)])"

declare indexKey.simps [simp del]

section \<open>The standard library, concretely\<close>

text \<open>
  One host, used to run the caster on concrete records: the operations as the
  language standard describes them, on strings of code units below 256.
\<close>

subsection \<open>Numbers\<close>

text \<open>Rounding a rational to a double: to nearest, ties to the even significand.\<close>

definition roundHalfEven :: "rat \<Rightarrow> int" where
  "roundHalfEven x =
     (let f = \<lfloor>x\<rfloor>; r = x - of_int f in
      if r < 1 / 2 then f else if 1 / 2 < r then f + 1 else if even f then f else f + 1)"

definition floorLog :: "nat \<Rightarrow> rat \<Rightarrow> int" where
  "floorLog b a =
     (let (n, d) = quotient_of a;
          k = int (floorlog b (nat n)) - int (floorlog b (nat d))
      in if of_nat b powi k \<le> a then k else k - 1)"

definition toDouble :: "rat \<Rightarrow> jsnum" where
  "toDouble q =
     (if q = 0 then Finite 0
      else
        let a = \<bar>q\<bar>;
            e = max (floorLog 2 a) (- 1022);
            ulp = 2 powi (e - 52);
            v = of_int (roundHalfEven (a / ulp)) * ulp
        in if 2 ^ 1024 \<le> v then (if q < 0 then NegInfinity else PosInfinity)
           else Finite (if q < 0 then - v else v))"

text \<open>Digits and their values.\<close>

definition digitValue :: "char \<Rightarrow> nat" where
  "digitValue c =
     (case map_of (zip ''0123456789abcdef'' [0, 1, 2, 3, 4, 5, 6, 7, 8, 9, 10, 11, 12, 13, 14, 15])
             (lowerChar c) of
        None \<Rightarrow> 0 | Some d \<Rightarrow> d)"

definition isDigitOf :: "nat \<Rightarrow> char \<Rightarrow> bool" where
  "isDigitOf b c = (lowerChar c \<in> set (take b ''0123456789abcdef''))"

definition digitsValue :: "nat \<Rightarrow> string \<Rightarrow> nat" where
  "digitsValue b ds = foldl (\<lambda>n c. n * b + digitValue c) 0 ds"

text \<open>White space and line terminators among the code units below 256.\<close>

definition isWhiteSpace :: "char \<Rightarrow> bool" where
  "isWhiteSpace c = (of_char c \<in> set [9, 10, 11, 12, 13, 32, 160 :: nat])"

definition trim :: "string \<Rightarrow> string" where
  "trim s = rev (dropWhile isWhiteSpace (rev (dropWhile isWhiteSpace s)))"

text \<open>
  An optional sign in front of a run of decimal digits: the sign and the digits,
  when the digits are not empty and nothing follows them.
\<close>

definition signedDigits :: "string \<Rightarrow> (bool \<times> string) option" where
  "signedDigits s =
     (let neg = (take 1 s = ''-'');
          ds = (if take 1 s = ''-'' \<or> take 1 s = ''+'' then drop 1 s else s)
      in if ds \<noteq> [] \<and> list_all isDigit ds then Some (neg, ds) else None)"

text \<open>
  \<^verbatim>\<open>digits [. digits] [e [sign] digits]\<close> or \<^verbatim>\<open>. digits [e [sign] digits]\<close>:
  the mathematical value of an unsigned decimal literal.
\<close>

definition unsignedDecimal :: "string \<Rightarrow> rat option" where
  "unsignedDecimal s =
     (let intPart = takeWhile isDigit s;
          r1 = dropWhile isDigit s;
          hasDot = (take 1 r1 = ''.'');
          fracPart = (if hasDot then takeWhile isDigit (drop 1 r1) else []);
          r2 = (if hasDot then dropWhile isDigit (drop 1 r1) else r1);
          expo = (if r2 = [] then Some (False, ''0'')
                  else if take 1 r2 = ''e'' \<or> take 1 r2 = ''E'' then signedDigits (drop 1 r2)
                  else None)
      in if intPart = [] \<and> fracPart = [] then None
         else
           (case expo of
              None \<Rightarrow> None
            | Some (neg, ds) \<Rightarrow>
                Some (of_nat (digitsValue 10 (intPart @ fracPart))
                      * 10 powi ((if neg then - int (digitsValue 10 ds) else int (digitsValue 10 ds))
                                 - int (length fracPart)))))"

text \<open>\<^verbatim>\<open>Number(val)\<close> of a string: the grammar of string numeric literals.\<close>

definition stringToNumber :: "string \<Rightarrow> jsnum" where
  "stringToNumber val =
     (let s = trim val;
          prefix = map lowerChar (take 2 s);
          neg = (take 1 s = ''-'');
          body = (if take 1 s = ''-'' \<or> take 1 s = ''+'' then drop 1 s else s)
      in if s = [] then Finite 0
         else if prefix = ''0x'' \<or> prefix = ''0o'' \<or> prefix = ''0b''
         then
           (let b = (if prefix = ''0x'' then 16 else if prefix = ''0o'' then 8 else 2) in
            if drop 2 s \<noteq> [] \<and> list_all (isDigitOf b) (drop 2 s)
            then toDouble (of_nat (digitsValue b (drop 2 s))) else NaN)
         else if body = ''Infinity'' then (if neg then NegInfinity else PosInfinity)
         else
           (case unsignedDecimal body of
              None \<Rightarrow> NaN
            | Some q \<Rightarrow> toDouble (if neg then - q else q)))"

text \<open>
  \<^verbatim>\<open>Number.prototype.toString()\<close>: the fewest digits \<open>s\<close> (\<open>k\<close> of them) with a
  decimal exponent \<open>n\<close> such that \<open>s * 10^(n - k)\<close> rounds to the number, the closest
  such \<open>s\<close> when several do.
\<close>

definition shortestDigits :: "rat \<Rightarrow> (nat \<times> int \<times> nat) option" where
  "shortestDigits x =
     (let n0 = floorLog 10 x + 1;
          candidates = concat (map (\<lambda>k. concat (map (\<lambda>n.
              (let lo = nat \<lfloor>x / 10 powi (n - int k)\<rfloor> in
               filter (\<lambda>(k, n, s). 10 ^ (k - 1) \<le> s \<and> s < 10 ^ k
                                   \<and> toDouble (of_nat s * 10 powi (n - int k)) = Finite x)
                 [(k, n, lo), (k, n, lo + 1)])) [n0, n0 + 1])) [1..<18])
      in case candidates of
           [] \<Rightarrow> None
         | (k, n, s) # rest \<Rightarrow>
             Some (foldl (\<lambda>(k, n, s) (k', n', s').
                      if k' = k \<and> \<bar>of_nat s' * 10 powi (n' - int k') - x\<bar>
                                    < \<bar>of_nat s * 10 powi (n - int k) - x\<bar>
                      then (k', n', s') else (k, n, s)) (k, n, s) rest))"

definition positiveToString :: "rat \<Rightarrow> string" where
  "positiveToString x =
     (case shortestDigits x of
        None \<Rightarrow> ''NaN''
      | Some (k, n, s) \<Rightarrow>
          (let ds = indexKey s;
               ex = (if 0 < n - 1 then ''e+'' @ indexKey (nat (n - 1))
                     else ''e-'' @ indexKey (nat (1 - n)))
           in if int k \<le> n \<and> n \<le> 21 then ds @ replicate (nat (n - int k)) (CHR ''0'')
              else if 0 < n \<and> n \<le> 21 then take (nat n) ds @ ''.'' @ drop (nat n) ds
              else if - 6 < n \<and> n \<le> 0 then ''0.'' @ replicate (nat (- n)) (CHR ''0'') @ ds
              else if k = 1 then ds @ ex
              else take 1 ds @ ''.'' @ drop 1 ds @ ex))"

fun numberToText :: "jsnum \<Rightarrow> string" where
  "numberToText NaN = ''NaN''"
| "numberToText PosInfinity = ''Infinity''"
| "numberToText NegInfinity = ''-Infinity''"
| "numberToText (Finite q) =
     (if q = 0 then ''0'' else if q < 0 then ''-'' @ positiveToString (- q)
      else positiveToString q)"

subsection \<open>Dates\<close>

text \<open>Days since 1970-01-01 of a civil date, and back.\<close>

definition daysFromCivil :: "int \<Rightarrow> int \<Rightarrow> int \<Rightarrow> int" where
  "daysFromCivil y m d =
     (let y' = (if m \<le> 2 then y - 1 else y);
          era = y' div 400;
          yoe = y' - era * 400;
          doy = (153 * (if 2 < m then m - 3 else m + 9) + 2) div 5 + d - 1;
          doe = yoe * 365 + yoe div 4 - yoe div 100 + doy
      in era * 146097 + doe - 719468)"

definition civilFromDays :: "int \<Rightarrow> int \<times> int \<times> int" where
  "civilFromDays z0 =
     (let z = z0 + 719468;
          era = z div 146097;
          doe = z - era * 146097;
          yoe = (doe - doe div 1460 + doe div 36524 - doe div 146096) div 365;
          doy = doe - (365 * yoe + yoe div 4 - yoe div 100);
          mp = (5 * doy + 2) div 153;
          d = doy - (153 * mp + 2) div 5 + 1;
          m = (if mp < 10 then mp + 3 else mp - 9)
      in (if m \<le> 2 then yoe + era * 400 + 1 else yoe + era * 400, m, d))"

definition daysInMonth :: "int \<Rightarrow> int \<Rightarrow> int" where
  "daysInMonth y m = daysFromCivil (if m = 12 then y + 1 else y) (if m = 12 then 1 else m + 1) 1
                     - daysFromCivil y m 1"

text \<open>A field of exactly \<open>n\<close> decimal digits at the head of a string.\<close>

definition digitField :: "nat \<Rightarrow> string \<Rightarrow> (int \<times> string) option" where
  "digitField n s =
     (if n \<le> length s \<and> list_all isDigit (take n s)
      then Some (int (digitsValue 10 (take n s)), drop n s) else None)"

text \<open>
  The time of day \<^verbatim>\<open>HH:mm\<close>, \<^verbatim>\<open>HH:mm:ss\<close> or \<^verbatim>\<open>HH:mm:ss.sss\<close> with an optional
  \<^verbatim>\<open>Z\<close> or \<^verbatim>\<open>+HH:mm\<close> after it, in milliseconds of universal time. A time
  without offset is local time; the host's time zone is taken to be UTC.
\<close>

definition offsetMs :: "string \<Rightarrow> int option" where
  "offsetMs s =
     (if s = [] \<or> s = ''Z'' then Some 0
      else if take 1 s = ''+'' \<or> take 1 s = ''-''
      then (case digitField 2 (drop 1 s) of
              None \<Rightarrow> None
            | Some (h, r) \<Rightarrow>
                (if take 1 r = '':''
                 then (case digitField 2 (drop 1 r) of
                         None \<Rightarrow> None
                       | Some (m, r') \<Rightarrow>
                           if r' = [] \<and> h < 24 \<and> m < 60
                           then Some ((if take 1 s = ''-'' then 1 else - 1) * (h * 60 + m) * 60000)
                           else None)
                 else None))
      else None)"

definition timeMs :: "string \<Rightarrow> int option" where
  "timeMs s =
     (case digitField 2 s of
        None \<Rightarrow> None
      | Some (h, r0) \<Rightarrow>
          (if take 1 r0 = '':''
           then (case digitField 2 (drop 1 r0) of
                   None \<Rightarrow> None
                 | Some (mi, r1) \<Rightarrow>
                     (let secs = (if take 1 r1 = '':'' then digitField 2 (drop 1 r1)
                                  else Some (0, r1))
                      in case secs of
                           None \<Rightarrow> None
                         | Some (sec, r2) \<Rightarrow>
                             (let millis = (if take 1 r1 = '':'' \<and> take 1 r2 = ''.''
                                            then digitField 3 (drop 1 r2) else Some (0, r2))
                              in case millis of
                                   None \<Rightarrow> None
                                 | Some (ms, r3) \<Rightarrow>
                                     (case offsetMs r3 of
                                        None \<Rightarrow> None
                                      | Some off \<Rightarrow>
                                          if (h < 24 \<or> (h = 24 \<and> mi = 0 \<and> sec = 0 \<and> ms = 0))
                                             \<and> mi < 60 \<and> sec < 60
                                          then Some (((h * 60 + mi) * 60 + sec) * 1000 + ms + off)
                                          else None))))
           else None))"

text \<open>
  The time value of \<^verbatim>\<open>new Date(val)\<close> for a string in the date-time format of
  the language: \<^verbatim>\<open>YYYY\<close>, \<^verbatim>\<open>YYYY-MM\<close> or \<^verbatim>\<open>YYYY-MM-DD\<close> (a year may also be
  written with a sign and six digits), alone or followed by \<^verbatim>\<open>T\<close> and a time.
  A string outside this format (\<^verbatim>\<open>31-12-2021\<close>, a day beyond the month's last as in
  \<^verbatim>\<open>2021-02-30\<close>, a space in place of the \<^verbatim>\<open>T\<close>) is read by each engine in its own
  way, and some make a date of it; here it is invalid. Nothing below runs this
  function on such a string.
\<close>

definition dateParse :: "string \<Rightarrow> jsnum" where
  "dateParse s =
     (let expanded = (take 1 s = ''+'' \<or> take 1 s = ''-'');
          year = (if expanded then digitField 6 (drop 1 s) else digitField 4 s)
      in case year of
           None \<Rightarrow> NaN
         | Some (y0, r0) \<Rightarrow>
             (let y = (if take 1 s = ''-'' then - y0 else y0);
                  month = (if take 1 r0 = ''-'' then digitField 2 (drop 1 r0) else Some (1, r0))
              in case month of
                   None \<Rightarrow> NaN
                 | Some (m, r1) \<Rightarrow>
                     (let day = (if take 1 r0 = ''-'' \<and> take 1 r1 = ''-''
                                 then digitField 2 (drop 1 r1) else Some (1, r1))
                      in case day of
                           None \<Rightarrow> NaN
                         | Some (d, r2) \<Rightarrow>
                             (let time = (if r2 = [] then Some 0
                                          else if take 1 r2 = ''T'' then timeMs (drop 1 r2)
                                          else None)
                              in case time of
                                   None \<Rightarrow> NaN
                                 | Some t \<Rightarrow>
                                     if 1 \<le> m \<and> m \<le> 12 \<and> 1 \<le> d \<and> d \<le> daysInMonth y m
                                        \<and> (take 1 s = ''-'' \<and> y0 = 0) = False
                                     then timeClip (Finite (of_int (daysFromCivil y m d * 86400000 + t)))
                                     else NaN))))"

text \<open>\<^verbatim>\<open>Date.prototype.toISOString\<close> of a valid time value.\<close>

definition padded :: "nat \<Rightarrow> int \<Rightarrow> string" where
  "padded n i = replicate (n - length (indexKey (nat i))) (CHR ''0'') @ indexKey (nat i)"

definition toISOString :: "int \<Rightarrow> string" where
  "toISOString t =
     (let day = t div 86400000;
          ms = t mod 86400000;
          (y, m, d) = civilFromDays day
      in (if 0 \<le> y \<and> y \<le> 9999 then padded 4 y
          else (if y < 0 then ''-'' else ''+'') @ padded 6 \<bar>y\<bar>)
         @ ''-'' @ padded 2 m @ ''-'' @ padded 2 d @ ''T''
         @ padded 2 (ms div 3600000) @ '':'' @ padded 2 (ms div 60000 mod 60) @ '':''
         @ padded 2 (ms div 1000 mod 60) @ ''.'' @ padded 3 (ms mod 1000) @ ''Z'')"

subsection \<open>JSON\<close>

definition isJsonSpace :: "char \<Rightarrow> bool" where
  "isJsonSpace c = (of_char c \<in> set [9, 10, 13, 32 :: nat])"

definition skipSpace :: "string \<Rightarrow> string" where
  "skipSpace s = dropWhile isJsonSpace s"

text \<open>
  The characters of a string literal after its opening quote, and what follows it.
  An escape of four hexadecimal digits above 00FF names a code unit that the strings
  of this model do not have; the character it yields here is not that code unit.
  Nothing below runs this function on such an escape.
\<close>

fun jsonChars :: "string \<Rightarrow> (string \<times> string) option" where
  "jsonChars [] = None"
| "jsonChars (c # cs) =
     (if c = CHR 0x22 then Some ([], cs)
      else if c = CHR 0x5C
      then (case cs of
              [] \<Rightarrow> None
            | e # es \<Rightarrow>
                if e = CHR ''u''
                then (if 4 \<le> length es \<and> list_all (isDigitOf 16) (take 4 es)
                      then (case jsonChars (drop 4 es) of
                              None \<Rightarrow> None
                            | Some (str, r) \<Rightarrow> Some (char_of (digitsValue 16 (take 4 es)) # str, r))
                      else None)
                else (case map_of [(CHR 0x22, CHR 0x22), (CHR 0x5C, CHR 0x5C), (CHR ''/'', CHR ''/''),
                                   (CHR ''b'', CHR 0x08), (CHR ''f'', CHR 0x0C), (CHR ''n'', CHR 0x0A),
                                   (CHR ''r'', CHR 0x0D), (CHR ''t'', CHR 0x09)] e of
                        None \<Rightarrow> None
                      | Some ch \<Rightarrow>
                          (case jsonChars es of
                             None \<Rightarrow> None
                           | Some (str, r) \<Rightarrow> Some (ch # str, r))))
      else if (of_char c :: nat) < 32 then None
      else (case jsonChars cs of
              None \<Rightarrow> None
            | Some (str, r) \<Rightarrow> Some (c # str, r)))"

text \<open>A number token: no leading zeros, digits on both sides of a point.\<close>

definition jsonNumber :: "string \<Rightarrow> jsnum option" where
  "jsonNumber tok =
     (let neg = (take 1 tok = ''-'');
          body = (if neg then drop 1 tok else tok);
          intPart = takeWhile isDigit body;
          r1 = dropWhile isDigit body;
          fracOk = (if take 1 r1 = ''.'' then takeWhile isDigit (drop 1 r1) \<noteq> [] else True)
      in if intPart \<noteq> [] \<and> (intPart = ''0'' \<or> take 1 intPart \<noteq> ''0'') \<and> fracOk
         then (case unsignedDecimal body of
                 None \<Rightarrow> None
               | Some q \<Rightarrow> Some (toDouble (if neg then - q else q)))
         else None)"

text \<open>
  A value, the elements of an array after its bracket, and the members of an
  object after its brace, each with the text that follows. Every call consumes a
  character, so the length of the text is fuel enough.
\<close>

fun jsonValue :: "nat \<Rightarrow> string \<Rightarrow> (jsval \<times> string) option"
  and jsonElements :: "nat \<Rightarrow> string \<Rightarrow> (jsval list \<times> string) option"
  and jsonMembers :: "nat \<Rightarrow> string \<Rightarrow> ((string \<times> jsval) list \<times> string) option" where
  "jsonValue 0 s = None"
| "jsonValue (Suc n) s =
     (let t = skipSpace s in
      if take 1 t = ''{''
      then (if take 1 (skipSpace (drop 1 t)) = ''}'' then Some (JObj [], drop 1 (skipSpace (drop 1 t)))
            else (case jsonMembers n (drop 1 t) of
                    None \<Rightarrow> None
                  | Some (ms, r) \<Rightarrow>
                      Some (JObj (foldl (\<lambda>acc (k, v). AList.update k v acc) [] ms), r)))
      else if take 1 t = ''[''
      then (if take 1 (skipSpace (drop 1 t)) = '']'' then Some (JArr [], drop 1 (skipSpace (drop 1 t)))
            else (case jsonElements n (drop 1 t) of
                    None \<Rightarrow> None
                  | Some (vs, r) \<Rightarrow> Some (JArr vs, r)))
      else if take 1 t = [CHR 0x22]
      then (case jsonChars (drop 1 t) of
              None \<Rightarrow> None
            | Some (str, r) \<Rightarrow> Some (JStr str, r))
      else if take 4 t = ''true'' then Some (JBool True, drop 4 t)
      else if take 5 t = ''false'' then Some (JBool False, drop 5 t)
      else if take 4 t = ''null'' then Some (JNull, drop 4 t)
      else (case jsonNumber (takeWhile (\<lambda>c. c \<in> set ''+-.0123456789eE'') t) of
              None \<Rightarrow> None
            | Some num \<Rightarrow> Some (JNum num, dropWhile (\<lambda>c. c \<in> set ''+-.0123456789eE'') t)))"
| "jsonElements 0 s = None"
| "jsonElements (Suc n) s =
     (case jsonValue n s of
        None \<Rightarrow> None
      | Some (v, r) \<Rightarrow>
          (let t = skipSpace r in
           if take 1 t = '',''
           then (case jsonElements n (drop 1 t) of
                   None \<Rightarrow> None
                 | Some (vs, r') \<Rightarrow> Some (v # vs, r'))
           else if take 1 t = '']'' then Some ([v], drop 1 t)
           else None))"
| "jsonMembers 0 s = None"
| "jsonMembers (Suc n) s =
     (let t = skipSpace s in
      if take 1 t = [CHR 0x22]
      then (case jsonChars (drop 1 t) of
              None \<Rightarrow> None
            | Some (k, r) \<Rightarrow>
                (if take 1 (skipSpace r) = '':''
                 then (case jsonValue n (drop 1 (skipSpace r)) of
                         None \<Rightarrow> None
                       | Some (v, r1) \<Rightarrow>
                           (let t2 = skipSpace r1 in
                            if take 1 t2 = '',''
                            then (case jsonMembers n (drop 1 t2) of
                                    None \<Rightarrow> None
                                  | Some (ms, r2) \<Rightarrow> Some ((k, v) # ms, r2))
                            else if take 1 t2 = ''}'' then Some ([(k, v)], drop 1 t2)
                            else None))
                 else None))
      else None)"

text \<open>\<^verbatim>\<open>JSON.parse(val)\<close>; \<open>None\<close> stands for the SyntaxError.\<close>

definition jsonParse :: "string \<Rightarrow> jsval option" where
  "jsonParse s =
     (case jsonValue (Suc (length s)) s of
        None \<Rightarrow> None
      | Some (v, r) \<Rightarrow> if skipSpace r = [] then Some v else None)"

text \<open>\<^verbatim>\<open>JSON.stringify(val)\<close> with no replacer and no indentation.\<close>

definition hexDigit :: "nat \<Rightarrow> char" where
  "hexDigit n = ''0123456789abcdef'' ! n"

definition quoteChar :: "char \<Rightarrow> string" where
  "quoteChar c =
     (case map_of [(CHR 0x22, [CHR 0x5C, CHR 0x22]), (CHR 0x5C, [CHR 0x5C, CHR 0x5C]),
                   (CHR 0x08, [CHR 0x5C, CHR ''b'']), (CHR 0x0C, [CHR 0x5C, CHR ''f'']),
                   (CHR 0x0A, [CHR 0x5C, CHR ''n'']), (CHR 0x0D, [CHR 0x5C, CHR ''r'']),
                   (CHR 0x09, [CHR 0x5C, CHR ''t''])] c of
        Some e \<Rightarrow> e
      | None \<Rightarrow>
          if (of_char c :: nat) < 32
          then [CHR 0x5C, CHR ''u'', CHR ''0'', CHR ''0'',
                hexDigit (of_char c div 16), hexDigit (of_char c mod 16)]
          else [c])"

definition quoteJSONString :: "string \<Rightarrow> string" where
  "quoteJSONString s = [CHR 0x22] @ concat (map quoteChar s) @ [CHR 0x22]"

fun joinWith :: "string \<Rightarrow> string list \<Rightarrow> string" where
  "joinWith sep [] = []"
| "joinWith sep [x] = x"
| "joinWith sep (x # y # ys) = x @ sep @ joinWith sep (y # ys)"

fun serialize :: "jsval \<Rightarrow> string option"
  and serializeElements :: "jsval list \<Rightarrow> string list"
  and serializeMembers :: "(string \<times> jsval) list \<Rightarrow> string list" where
  "serialize JUndefined = None"
| "serialize JNull = Some ''null''"
| "serialize (JBool b) = Some (if b then ''true'' else ''false'')"
| "serialize (JNum n) = Some (case n of Finite q \<Rightarrow> numberToText n | _ \<Rightarrow> ''null'')"
| "serialize (JStr s) = Some (quoteJSONString s)"
| "serialize (JDate t) =
     Some (case t of Finite q \<Rightarrow> quoteJSONString (toISOString \<lfloor>q\<rfloor>) | _ \<Rightarrow> ''null'')"
| "serialize (JArr xs) = Some (''['' @ joinWith '','' (serializeElements xs) @ '']'')"
| "serialize (JObj fs) = Some (''{'' @ joinWith '','' (serializeMembers fs) @ ''}'')"
| "serializeElements [] = []"
| "serializeElements (x # xs) =
     (case serialize x of None \<Rightarrow> ''null'' | Some t \<Rightarrow> t) # serializeElements xs"
| "serializeMembers [] = []"
| "serializeMembers (kv # fs) =
     (case serialize (snd kv) of
        None \<Rightarrow> serializeMembers fs
      | Some t \<Rightarrow> (quoteJSONString (fst kv) @ '':'' @ t) # serializeMembers fs)"

definition jsonStringify :: "jsval \<Rightarrow> jsval" where
  "jsonStringify v = (case serialize v of None \<Rightarrow> JUndefined | Some t \<Rightarrow> JStr t)"

text \<open>The host made of these operations.\<close>

definition ecma :: host where
  "ecma = \<lparr> Number = stringToNumber, parseDate = dateParse, JSON_parse = jsonParse,
     JSON_stringify = jsonStringify, numberToString = numberToText \<rparr>"

section \<open>Casting a string\<close>

text \<open>
  The loop over the date patterns: the first pattern that matches and gives a
  valid date returns it (\<open>Some\<close>); \<open>None\<close> when the loop ends without returning.
\<close>

fun tryDates :: "host \<Rightarrow> regex list \<Rightarrow> string \<Rightarrow> jsval option" where
  "tryDates H [] val = None"
| "tryDates H (regex # matches) val =
     (if regex val
      then (let date = parseDate H val in
            if isNaN date then tryDates H matches val else Some (JDate date))
      else tryDates H matches val)"

text \<open>
  \<^verbatim>\<open>_castFromString(val, opts, toType?)\<close>: the four blocks in the order of the
  source; the result is \<open>JUndefined\<close> when no block returns.
\<close>

definition castFromString ::
  "host \<Rightarrow> string \<Rightarrow> casterOptions option \<Rightarrow> schemaEntry option \<Rightarrow> jsval" where
  "castFromString H val opts toType =
     (if (toType = Some (SType TNumber)
          \<or> (case opts of None \<Rightarrow> False
              | Some os \<Rightarrow> stringsToNumbers os \<and> int (length val) \<le> numberMaxChars os))
         \<and> isNaN (Number H val) = False
      then JNum (Number H val)
      else
        case (if toType = Some (SType TDate)
                 \<or> (case opts of None \<Rightarrow> False
                     | Some os \<Rightarrow> stringsToDates os \<and> length val \<le> 20)
              then tryDates H (case opts of None \<Rightarrow> datesMatchRegexDefault
                               | Some os \<Rightarrow> datesMatchRegex os) val
              else None) of
          Some date \<Rightarrow> date
        | None \<Rightarrow>
            if (toType = Some (SType TBoolean)
                \<or> (case opts of None \<Rightarrow> False
                    | Some os \<Rightarrow> stringsToBooleans os \<and> length val \<le> 5))
               \<and> (toLowerCase val = ''true'' \<or> toLowerCase val = ''false'')
            then JBool (toLowerCase val = ''true'')
            else if toType = Some (SType TObject)
                    \<or> (case opts of None \<Rightarrow> False | Some os \<Rightarrow> stringsToObjects os)
            then (case JSON_parse H val of
                    None \<Rightarrow> JUndefined
                  | Some obj \<Rightarrow> if truthy obj \<and> typeof obj = ''object'' then obj else JUndefined)
            else JUndefined)"

text \<open>
  \<^verbatim>\<open>_castSchemaField(val, toType, opts)\<close>: a string goes through
  \<open>castFromString\<close> forced to the type; a number becomes a boolean, a string or a
  date; an object becomes its JSON text; anything else is left (\<open>JUndefined\<close>).
\<close>

definition castSchemaField :: "host \<Rightarrow> jsval \<Rightarrow> schemaType \<Rightarrow> casterOptions \<Rightarrow> jsval" where
  "castSchemaField H val toType opts =
     (let castedVal =
            (case val of
               JStr s \<Rightarrow> if toType = TString then JUndefined
                         else castFromString H s (Some opts) (Some (SType toType))
             | _ \<Rightarrow> JUndefined)
      in if castedVal = JUndefined
         then
           (case (case val of
                    JNum n \<Rightarrow>
                      if toType = TNumber then None
                      else (case toType of
                              TBoolean \<Rightarrow> Some (JBool (truthy val))
                            | TString \<Rightarrow> Some (JStr (numberToString H n))
                            | TDate \<Rightarrow> Some (JDate (timeClip n))
                            | _ \<Rightarrow> None)
                  | _ \<Rightarrow> None) of
              Some r \<Rightarrow> r
            | None \<Rightarrow>
                if typeof val = ''object'' \<and> toType = TString then JSON_stringify H val
                else JUndefined)
         else castedVal)"

subsection \<open>The heuristics as the specification words them\<close>






section \<open>Objects and their properties\<close>

text \<open>
  The own enumerable properties in the order \<^verbatim>\<open>for (const key in obj)\<close> visits
  them; null and a Date have none.
\<close>

fun ownProps :: "jsval \<Rightarrow> (string \<times> jsval) list" where
  "ownProps (JObj fs) = fs"
| "ownProps (JArr xs) = zip (map indexKey [0..<length xs]) xs"
| "ownProps v = []"

text \<open>\<^verbatim>\<open>obj[key]\<close> for a key the loop got from the object.\<close>

definition getProp :: "jsval \<Rightarrow> string \<Rightarrow> jsval" where
  "getProp obj key = (case map_of (ownProps obj) key of None \<Rightarrow> JUndefined | Some v \<Rightarrow> v)"

text \<open>
  \<^verbatim>\<open>obj[key] = v\<close>. On an object the property is replaced where it stands, or
  added at the end; on an array only the index keys it has are ever written.
\<close>

fun updateFirst :: "string list \<Rightarrow> jsval list \<Rightarrow> string \<Rightarrow> jsval \<Rightarrow> jsval list" where
  "updateFirst (k # ks) (x # xs) key v =
     (if k = key then v # xs else x # updateFirst ks xs key v)"
| "updateFirst ks xs key v = xs"

fun setProp :: "jsval \<Rightarrow> string \<Rightarrow> jsval \<Rightarrow> jsval" where
  "setProp (JObj fs) key v = JObj (AList.update key v fs)"
| "setProp (JArr xs) key v = JArr (updateFirst (map indexKey [0..<length xs]) xs key v)"
| "setProp obj key v = obj"

text \<open>
  The names every object made by a literal inherits from \<^verbatim>\<open>Object.prototype\<close>:
  the \<^verbatim>\<open>in\<close> operator finds them as well as the own properties.
\<close>

definition objectPrototypeKeys :: "string list" where
  "objectPrototypeKeys =
     [''constructor'', ''__defineGetter__'', ''__defineSetter__'', ''hasOwnProperty'',
      ''__lookupGetter__'', ''__lookupSetter__'', ''isPrototypeOf'', ''propertyIsEnumerable'',
      ''toString'', ''valueOf'', ''__proto__'', ''toLocaleString'']"

definition hasProperty :: "string \<Rightarrow> (string \<times> 'a) list \<Rightarrow> bool" where
  "hasProperty key props =
     (case map_of props key of None \<Rightarrow> key \<in> set objectPrototypeKeys | Some v \<Rightarrow> True)"

datatype error = TypeError

text \<open>
  \<^verbatim>\<open>Object.assign(target, source)\<close> for a source with the properties \<open>props\<close>:
  a null target throws, otherwise each property is written onto the target, which
  is the result.
\<close>

definition objectAssign :: "jsval \<Rightarrow> (string \<times> jsval) list \<Rightarrow> error + jsval" where
  "objectAssign target props =
     (if target = JNull \<or> target = JUndefined then Inl TypeError
      else Inr (foldl (\<lambda>t (k, v). setProp t k v) target props))"

section \<open>The coercion engine\<close>

text \<open>
  What a call of \<^verbatim>\<open>cast\<close> leaves behind: the value it returns, the value the
  object it was given holds after the call, and whether the returned value is that
  very object.
\<close>

record outcome =
  returned :: jsval
  inputAfter :: jsval
  sameObject :: bool

text \<open>
  The schema gate of the loop: the field is skipped when a schema is given and maps
  it to \<^verbatim>\<open>false\<close>, or \<^verbatim>\<open>onlySchema\<close> is set and the key is not \<^verbatim>\<open>in\<close> the schema.
\<close>

definition schemaGate :: "casterOptions \<Rightarrow> string \<Rightarrow> bool" where
  "schemaGate opts key =
     (case schema opts of
        None \<Rightarrow> False
      | Some s \<Rightarrow>
          if map_of s key = Some (SBool False) then True
          else if onlySchema opts then (if hasProperty key s then False else True)
          else False)"

text \<open>The string branch of the loop; \<open>JUndefined\<close> when it is not taken.\<close>

fun stringCast :: "host \<Rightarrow> casterOptions \<Rightarrow> jsval \<Rightarrow> jsval" where
  "stringCast H opts (JStr s) =
     (if 0 < length s then castFromString H s (Some opts) None else JUndefined)"
| "stringCast H opts v = JUndefined"

text \<open>
  \<^verbatim>\<open>opts.deepCasters && key in opts.deepCasters && typeof val === 'object'\<close>,
  and the options \<^verbatim>\<open>opts.deepCasters[key]\<close> then passed on. For an inherited key
  that value is a function of \<^verbatim>\<open>Object.prototype\<close>, of which the constructor
  copies nothing: it acts as no options.
\<close>

definition deepApplies :: "casterOptions \<Rightarrow> string \<Rightarrow> jsval \<Rightarrow> bool" where
  "deepApplies opts key val =
     (case deepCasters opts of
        None \<Rightarrow> False
      | Some dc \<Rightarrow> hasProperty key dc \<and> typeof val = ''object'')"

definition deepOptsOf :: "casterOptions \<Rightarrow> string \<Rightarrow> partialOptions option" where
  "deepOptsOf opts key = (case deepCasters opts of None \<Rightarrow> None | Some dc \<Rightarrow> map_of dc key)"

text \<open>
  \<^verbatim>\<open>val.map(v => TpsCaster.cast(v, deepOpts))\<close>: the results in a new array, and the
  elements as the calls leave them; the first call that throws ends the map.
\<close>

fun castElements ::
  "(jsval \<Rightarrow> error + outcome) \<Rightarrow> jsval list \<Rightarrow> error + (jsval list \<times> jsval list)" where
  "castElements f [] = Inr ([], [])"
| "castElements f (v # vs) =
     (case f v of
        Inl e \<Rightarrow> Inl e
      | Inr out \<Rightarrow>
          (case castElements f vs of
             Inl e \<Rightarrow> Inl e
           | Inr (rs, afters) \<Rightarrow> Inr (returned out # rs, inputAfter out # afters)))"

text \<open>The deep-caster branch: the value for \<open>casted[key]\<close> and \<open>val\<close> after the calls.\<close>

definition deepCast :: "(jsval \<Rightarrow> error + outcome) \<Rightarrow> jsval \<Rightarrow> error + (jsval \<times> jsval)" where
  "deepCast f val =
     (case val of
        JArr vs \<Rightarrow>
          (case castElements f vs of
             Inl e \<Rightarrow> Inl e
           | Inr (rs, afters) \<Rightarrow> Inr (JArr rs, JArr afters))
      | _ \<Rightarrow>
          (case f val of
             Inl e \<Rightarrow> Inl e
           | Inr out \<Rightarrow> Inr (returned out, inputAfter out)))"

text \<open>
  One turn of the loop \<^verbatim>\<open>for(const key in obj)\<close>. The state is \<open>casted\<close> and the
  object as it stands; \<open>castRec\<close> is \<^verbatim>\<open>TpsCaster.cast\<close> itself, for the deep casters.
\<close>

definition castField ::
  "host \<Rightarrow> (partialOptions option \<Rightarrow> jsval \<Rightarrow> error + outcome) \<Rightarrow> casterOptions \<Rightarrow> string
    \<Rightarrow> (string \<times> jsval) list \<times> jsval \<Rightarrow> error + ((string \<times> jsval) list \<times> jsval)" where
  "castField H castRec opts key st =
     (let casted = fst st; obj = snd st; val = getProp obj key in
      if truthy val = False then Inr (casted, obj)
      else if schemaGate opts key then Inr (casted, obj)
      else
        let castedVal = stringCast H opts val in
        if castedVal = JUndefined
        then
          if deepApplies opts key val
          then (case deepCast (castRec (deepOptsOf opts key)) val of
                  Inl e \<Rightarrow> Inl e
                | Inr (r, val') \<Rightarrow> Inr (AList.update key r casted, setProp obj key val'))
          else
            (case schema opts of
               None \<Rightarrow> Inr (casted, obj)
             | Some s \<Rightarrow>
                 if hasProperty key s \<and> hasProperty key casted = False
                 then (case map_of s key of
                         Some (SType toType) \<Rightarrow>
                           (let forced = castSchemaField H val toType opts in
                            if forced = JUndefined then Inr (casted, obj)
                            else Inr (AList.update key forced casted, obj))
                       | _ \<Rightarrow> Inr (casted, obj))
                 else Inr (casted, obj))
        else Inr (AList.update key castedVal casted, obj))"

fun castFields ::
  "host \<Rightarrow> (partialOptions option \<Rightarrow> jsval \<Rightarrow> error + outcome) \<Rightarrow> casterOptions \<Rightarrow> string list
    \<Rightarrow> (string \<times> jsval) list \<times> jsval \<Rightarrow> error + ((string \<times> jsval) list \<times> jsval)" where
  "castFields H castRec opts [] st = Inr st"
| "castFields H castRec opts (key # keys) st =
     (case castField H castRec opts key st of
        Inl e \<Rightarrow> Inl e
      | Inr st' \<Rightarrow> castFields H castRec opts keys st')"

text \<open>The deep options a loop with these options can pass on.\<close>

definition deepOptions :: "casterOptions \<Rightarrow> partialOptions option set" where
  "deepOptions opts =
     (case deepCasters opts of None \<Rightarrow> {} | Some dc \<Rightarrow> insert None (Some ` snd ` set dc))"

lemma deepOptsOf_in:
  assumes "deepCasters opts = Some dc"
  shows "deepOptsOf opts key \<in> deepOptions opts"
proof (cases "map_of dc key")
  case None
  with assms show ?thesis by (simp add: deepOptsOf_def deepOptions_def)
next
  case (Some d)
  then have "(key, d) \<in> set dc" by (rule map_of_SomeD)
  then have "d \<in> snd ` set dc" by force
  with Some assms show ?thesis
    by (simp add: deepOptsOf_def deepOptions_def)
qed

lemma castElements_cong [fundef_cong]:
  "vs = ws \<Longrightarrow> (\<And>v. v \<in> set ws \<Longrightarrow> f v = g v) \<Longrightarrow> castElements f vs = castElements g ws"
  by (induction ws arbitrary: vs) (auto split: sum.splits)

lemma deepCast_cong [fundef_cong]:
  "val = val' \<Longrightarrow> (\<And>v. f v = g v) \<Longrightarrow> deepCast f val = deepCast g val'"
  by (metis ext)

lemma castField_cong [fundef_cong]:
  assumes "H = H'" "opts = opts'" "key = key'" "st = st'"
    and "\<And>d v. d \<in> deepOptions opts' \<Longrightarrow> f d v = g d v"
  shows "castField H f opts key st = castField H' g opts' key' st'"
proof (cases "deepCasters opts'")
  case None
  then have never: "deepApplies opts' key' = (\<lambda>v. False)"
    by (simp add: deepApplies_def fun_eq_iff)
  show ?thesis
    unfolding castField_def assms(1-4) never if_False by (rule refl)
next
  case (Some dc)
  have same: "f (deepOptsOf opts' key') = g (deepOptsOf opts' key')"
    using assms(5) deepOptsOf_in [OF Some] by blast
  show ?thesis
    unfolding castField_def assms(1-4) same by (rule refl)
qed

lemma castFields_cong [fundef_cong]:
  assumes "H = H'" "opts = opts'" "keys = keys'" "st = st'"
    and "\<And>d v. d \<in> deepOptions opts' \<Longrightarrow> f d v = g d v"
  shows "castFields H f opts keys st = castFields H' g opts' keys' st'"
  using assms
proof (induction keys' arbitrary: keys st st')
  case Nil
  then show ?case by simp
next
  case (Cons k ks)
  have "castField H f opts k st = castField H' g opts' k st'"
    using Cons.prems by (intro castField_cong) auto
  moreover have "castFields H f opts ks s = castFields H' g opts' ks s" for s
    using Cons.prems by (intro Cons.IH) auto
  ultimately show ?case
    using Cons.prems(3) by (simp split: sum.splits)
qed

text \<open>
  \<^verbatim>\<open>TpsCaster.cast(obj, options)\<close>. A value that is not of type object is
  returned as it is; \<^verbatim>\<open>typeof null\<close> is object. With \<^verbatim>\<open>rewriteFields\<close> the
  coerced fields are assigned to the object itself, otherwise to a new object that
  first receives the object's own properties.
\<close>

function cast :: "host \<Rightarrow> jsval \<Rightarrow> partialOptions option \<Rightarrow> error + outcome" where
  "cast H obj options =
     (if typeof obj = ''object''
      then
        (let opts = resolveOptions options in
         case castFields H (\<lambda>d v. cast H v d) opts (map fst (ownProps obj)) ([], obj) of
           Inl e \<Rightarrow> Inl e
         | Inr (casted, obj') \<Rightarrow>
             if rewriteFields opts
             then (case objectAssign obj' casted of
                     Inl e \<Rightarrow> Inl e
                   | Inr r \<Rightarrow> Inr \<lparr> returned = r, inputAfter = r, sameObject = True \<rparr>)
             else (case objectAssign (JObj []) (ownProps obj' @ casted) of
                     Inl e \<Rightarrow> Inl e
                   | Inr r \<Rightarrow> Inr \<lparr> returned = r, inputAfter = obj', sameObject = False \<rparr>))
      else Inr \<lparr> returned = obj, inputAfter = obj, sameObject = True \<rparr>)"
  by pat_completeness auto

lemma deepCasters_resolveOptions:
  "deepCasters (resolveOptions options) =
     (case options of None \<Rightarrow> None | Some p \<Rightarrow> p_deepCasters p)"
  by (simp add: resolveOptions_def newTpsCasterOptions_def enableAllApply_def assignOptions_def
      defaultOptions_def Let_def split: option.splits)

lemma size_deepCaster:
  assumes "p_deepCasters p = Some dc" "d \<in> snd ` set dc"
  shows "size d < size p"
proof -
  from assms(2) obtain k where "(k, d) \<in> set dc" by auto
  then have "size_prod (\<lambda>x. 0) size (k, d) \<le> size_list (size_prod (\<lambda>x. 0) size) dc"
    by (simp add: size_list_estimation')
  then have "size d < Suc (size_list (size_prod (\<lambda>x. 0) size) dc)"
    by simp
  with assms(1) show ?thesis
    by (cases p) simp
qed

termination cast
proof (relation "measure (\<lambda>(H, obj, options). case options of None \<Rightarrow> 0 | Some p \<Rightarrow> size p)")
  show "wf (measure (\<lambda>(H, obj, options). case options of None \<Rightarrow> 0 | Some p \<Rightarrow> size p))"
    by simp
next
  fix H :: host and obj options opts d and v :: jsval
  assume "opts = resolveOptions options" and d: "d \<in> deepOptions opts"
  then have dc: "deepCasters opts = (case options of None \<Rightarrow> None | Some p \<Rightarrow> p_deepCasters p)"
    by (simp add: deepCasters_resolveOptions)
  show "((H, v, d), (H, obj, options))
        \<in> measure (\<lambda>(H, obj, options). case options of None \<Rightarrow> 0 | Some p \<Rightarrow> size p)"
  proof (cases options)
    case None
    with d dc show ?thesis by (simp add: deepOptions_def)
  next
    case (Some p)
    show ?thesis
    proof (cases d)
      case None
      with Some show ?thesis by (cases p) simp
    next
      case (Some d')
      with d dc \<open>options = Some p\<close> obtain dcs where
        "p_deepCasters p = Some dcs" "d' \<in> snd ` set dcs"
        by (auto simp: deepOptions_def split: option.splits)
      then have "size d' < size p" by (rule size_deepCaster)
      with Some \<open>options = Some p\<close> show ?thesis by simp
    qed
  qed
qed

declare cast.simps [simp del]

text \<open>
  Options that never write onto the object they are given: \<^verbatim>\<open>rewriteFields\<close> is
  not set, here and in every deep caster below.
\<close>

fun copiesOnly :: "partialOptions \<Rightarrow> bool" where
  "copiesOnly (PartialOptions f dc) =
     (p_rewriteFields f \<noteq> Some True
      \<and> (case dc of None \<Rightarrow> True | Some l \<Rightarrow> list_all (\<lambda>kd. copiesOnly (snd kd)) l))"

section \<open>Properties of objects\<close>

lemma length_updateFirst [simp]: "length (updateFirst ks xs key v) = length xs"
  by (induction ks xs key v rule: updateFirst.induct) auto

lemma map_of_updateFirst_other:
  "length ks = length xs \<Longrightarrow> k \<noteq> key
   \<Longrightarrow> map_of (zip ks (updateFirst ks xs key v)) k = map_of (zip ks xs) k"
  by (induction ks xs key v rule: updateFirst.induct) auto

lemma updateFirst_same:
  "length ks = length xs \<Longrightarrow> map_of (zip ks xs) key = Some v \<Longrightarrow> updateFirst ks xs key v = xs"
  by (induction ks xs key v rule: updateFirst.induct) (auto split: if_splits)

lemma getProp_setProp_other: "k \<noteq> key \<Longrightarrow> getProp (setProp obj key v) k = getProp obj k"
  by (cases obj) (simp_all add: getProp_def update_conv' map_of_updateFirst_other)

lemma setProp_same: "map_of (ownProps obj) key = Some v \<Longrightarrow> setProp obj key v = obj"
  by (cases obj) (simp_all add: update_triv updateFirst_same)

lemma keys_setProp:
  "map_of (ownProps obj) key \<noteq> None
   \<Longrightarrow> map fst (ownProps (setProp obj key v)) = map fst (ownProps obj)"
proof (cases obj)
  case (JObj fs)
  assume "map_of (ownProps obj) key \<noteq> None"
  with JObj have "key \<in> fst ` set fs" by (simp add: map_of_eq_None_iff)
  with JObj show ?thesis by (simp add: update_keys)
qed simp_all

lemma truthy_getProp_own: "truthy (getProp obj key) \<Longrightarrow> map_of (ownProps obj) key \<noteq> None"
  by (auto simp: getProp_def split: option.splits)

lemma getProp_own: "truthy (getProp obj key) \<Longrightarrow> map_of (ownProps obj) key = Some (getProp obj key)"
  by (auto simp: getProp_def split: option.splits)

section \<open>Properties of the loop\<close>

lemma castField_falsy:
  "truthy (getProp (snd st) key) = False \<Longrightarrow> castField H f opts key st = Inr st"
  by (simp add: castField_def Let_def)

lemma castField_gate: "schemaGate opts key \<Longrightarrow> castField H f opts key st = Inr st"
  by (simp add: castField_def Let_def)

text \<open>What one turn can do to the state: nothing, or set \<open>casted[key]\<close> and the field itself.\<close>

lemma castField_cases:
  assumes "castField H f opts key (casted, obj) = Inr (casted', obj')"
  shows "(casted' = casted \<and> obj' = obj)
       \<or> (\<exists>r. casted' = AList.update key r casted \<and> obj' = obj)
       \<or> (\<exists>r val'. truthy (getProp obj key) \<and> casted' = AList.update key r casted
              \<and> obj' = setProp obj key val')"
  using assms
  by (auto simp: castField_def Let_def
      split: if_splits sum.splits option.splits prod.splits schemaEntry.splits)

lemma castField_frame:
  assumes "castField H f opts key (casted, obj) = Inr (casted', obj')" and "k \<noteq> key"
  shows "map_of casted' k = map_of casted k" and "getProp obj' k = getProp obj k"
  using castField_cases [OF assms(1)] assms(2)
  by (auto simp: update_conv' getProp_setProp_other)

lemma castField_keys:
  assumes "castField H f opts key (casted, obj) = Inr (casted', obj')"
  shows "map fst (ownProps obj') = map fst (ownProps obj)"
  using castField_cases [OF assms]
  by (auto simp: keys_setProp truthy_getProp_own)

lemma castFields_keys:
  "castFields H f opts keys (casted, obj) = Inr (casted', obj')
   \<Longrightarrow> map fst (ownProps obj') = map fst (ownProps obj)"
proof (induction keys arbitrary: casted obj)
  case Nil
  then show ?case by simp
next
  case (Cons key keys)
  then obtain c1 o1 where
    step: "castField H f opts key (casted, obj) = Inr (c1, o1)" and
    rest: "castFields H f opts keys (c1, o1) = Inr (casted', obj')"
    by (auto split: sum.splits)
  from Cons.IH [OF rest] castField_keys [OF step] show ?case by simp
qed

text \<open>
  A field that its own turn leaves alone is left alone by the whole loop: the other
  turns do not reach it.
\<close>

lemma castFields_untouched:
  assumes step: "\<And>casted obj. getProp obj k = v \<Longrightarrow> map_of casted k = None
            \<Longrightarrow> castField H f opts k (casted, obj) = Inr (casted, obj)"
    and "castFields H f opts keys (casted, obj) = Inr (casted', obj')"
    and "getProp obj k = v" and "map_of casted k = None"
  shows "getProp obj' k = v \<and> map_of casted' k = None"
  using assms(2-4)
proof (induction keys arbitrary: casted obj)
  case Nil
  then show ?case by simp
next
  case (Cons key keys)
  then obtain c1 o1 where
    turn: "castField H f opts key (casted, obj) = Inr (c1, o1)" and
    rest: "castFields H f opts keys (c1, o1) = Inr (casted', obj')"
    by (auto split: sum.splits)
  have "getProp o1 k = v \<and> map_of c1 k = None"
  proof (cases "key = k")
    case True
    with turn step [OF Cons.prems(2,3)] Cons.prems show ?thesis by simp
  next
    case False
    then have "k \<noteq> key" by simp
    from castField_frame [OF turn this] Cons.prems show ?thesis by simp
  qed
  then show ?case using Cons.IH [OF rest] by simp
qed

section \<open>Properties of Object.assign\<close>

lemma foldl_setProp_JObj:
  "foldl (\<lambda>t (k, v). setProp t k v) (JObj fs) props
   = JObj (foldl (\<lambda>acc (k, v). AList.update k v acc) fs props)"
  by (induction props arbitrary: fs) auto

lemma map_of_foldl_update_absent:
  "map_of props k = None
   \<Longrightarrow> map_of (foldl (\<lambda>acc (k, v). AList.update k v acc) fs props) k = map_of fs k"
  by (induction props arbitrary: fs) (auto simp: update_conv' split: if_splits)

lemma map_of_foldl_update_distinct:
  "distinct (map fst props) \<Longrightarrow> map_of props k = Some v
   \<Longrightarrow> map_of (foldl (\<lambda>acc (k, v). AList.update k v acc) fs props) k = Some v"
proof (induction props arbitrary: fs)
  case Nil
  then show ?case by simp
next
  case (Cons p props)
  obtain k' v' where p: "p = (k', v')" by (cases p)
  show ?case
  proof (cases "k' = k")
    case True
    with Cons.prems p have "map_of props k = None"
      by (auto simp: map_of_eq_None_iff)
    with Cons.prems p True show ?thesis
      by (simp add: map_of_foldl_update_absent update_conv')
  next
    case False
    with Cons p show ?thesis by simp
  qed
qed

lemma update_fresh: "k \<notin> fst ` set al \<Longrightarrow> AList.update k v al = al @ [(k, v)]"
  by (induction al) auto

lemma foldl_update_distinct:
  "distinct (map fst (acc @ fs))
   \<Longrightarrow> foldl (\<lambda>acc (k, v). AList.update k v acc) acc fs = acc @ fs"
proof (induction fs arbitrary: acc)
  case Nil
  then show ?case by simp
next
  case (Cons p fs)
  obtain k v where p: "p = (k, v)" by (cases p)
  with Cons.prems have fresh: "k \<notin> fst ` set acc" by auto
  from Cons.prems p have "distinct (map fst ((acc @ [(k, v)]) @ fs))" by auto
  from Cons.IH [OF this] fresh p show ?case by (simp add: update_fresh)
qed


lemma keys_foldl_update:
  "fst ` set props \<subseteq> fst ` set fs
   \<Longrightarrow> map fst (foldl (\<lambda>acc (k, v). AList.update k v acc) fs props) = map fst fs"
proof (induction props arbitrary: fs)
  case Nil
  then show ?case by simp
next
  case (Cons p props)
  obtain k v where p: "p = (k, v)" by (cases p)
  with Cons.prems have "k \<in> fst ` set fs" by auto
  then have keys: "map fst (AList.update k v fs) = map fst fs" by (simp add: update_keys)
  then have "fst ` set (AList.update k v fs) = fst ` set fs"
    by (metis list.set_map)
  with Cons.prems p have "fst ` set props \<subseteq> fst ` set (AList.update k v fs)" by auto
  from Cons.IH [OF this] keys p show ?case by simp
qed

text \<open>The two ways \<^verbatim>\<open>cast\<close> assembles its result, for a record with distinct names.\<close>

lemma objectAssign_copy:
  "distinct (map fst fs)
   \<Longrightarrow> objectAssign (JObj []) (fs @ casted)
       = Inr (JObj (foldl (\<lambda>acc (k, v). AList.update k v acc) fs casted))"
  using foldl_update_distinct [of "[]" fs]
  by (simp add: objectAssign_def foldl_setProp_JObj)

lemma objectAssign_rewrite:
  "objectAssign (JObj fs) casted
   = Inr (JObj (foldl (\<lambda>acc (k, v). AList.update k v acc) fs casted))"
  by (simp add: objectAssign_def foldl_setProp_JObj)

text \<open>The loop over a record leaves a record with the same names.\<close>

lemma castField_record:
  assumes "castField H f opts key (casted, JObj fs) = Inr (casted', obj')"
  shows "\<exists>fs'. obj' = JObj fs' \<and> map fst fs' = map fst fs"
proof -
  from castField_keys [OF assms] have keys: "map fst (ownProps obj') = map fst fs" by simp
  from castField_cases [OF assms] obtain fs' where "obj' = JObj fs'" by auto
  with keys show ?thesis by simp
qed

lemma castFields_record:
  "castFields H f opts keys (casted, JObj fs) = Inr (casted', obj')
   \<Longrightarrow> \<exists>fs'. obj' = JObj fs' \<and> map fst fs' = map fst fs"
proof (induction keys arbitrary: casted fs)
  case Nil
  then show ?case by auto
next
  case (Cons key keys)
  then obtain c1 o1 where
    turn: "castField H f opts key (casted, JObj fs) = Inr (c1, o1)" and
    rest: "castFields H f opts keys (c1, o1) = Inr (casted', obj')"
    by (auto split: sum.splits)
  from castField_record [OF turn] obtain fs1 where
    o1: "o1 = JObj fs1" "map fst fs1 = map fst fs" by auto
  from Cons.IH [OF rest [unfolded o1(1)]] o1(2) show ?case by simp
qed

text \<open>
  What \<^verbatim>\<open>cast\<close> returns for a record, in terms of the loop's final state.
\<close>

lemma cast_unfold:
  "cast H (JObj fs) options =
     (case castFields H (\<lambda>d v. cast H v d) (resolveOptions options) (map fst fs) ([], JObj fs) of
        Inl e \<Rightarrow> Inl e
      | Inr (casted, obj') \<Rightarrow>
          if rewriteFields (resolveOptions options)
          then (case objectAssign obj' casted of
                  Inl e \<Rightarrow> Inl e
                | Inr r \<Rightarrow> Inr \<lparr> returned = r, inputAfter = r, sameObject = True \<rparr>)
          else (case objectAssign (JObj []) (ownProps obj' @ casted) of
                  Inl e \<Rightarrow> Inl e
                | Inr r \<Rightarrow> Inr \<lparr> returned = r, inputAfter = obj', sameObject = False \<rparr>))"
  by (subst cast.simps) (simp add: Let_def)

lemma cast_record:
  assumes "distinct (map fst fs)" and "cast H (JObj fs) options = Inr out"
  obtains casted fs' where
    "castFields H (\<lambda>d v. cast H v d) (resolveOptions options) (map fst fs) ([], JObj fs)
       = Inr (casted, JObj fs')"
    and "map fst fs' = map fst fs"
    and "returned out = JObj (foldl (\<lambda>acc (k, v). AList.update k v acc) fs' casted)"
    and "inputAfter out = (if rewriteFields (resolveOptions options) then returned out else JObj fs')"
    and "sameObject out = rewriteFields (resolveOptions options)"
proof -
  let ?opts = "resolveOptions options"
  let ?loop = "castFields H (\<lambda>d v. cast H v d) ?opts (map fst fs) ([], JObj fs)"
  from assms(2) obtain st where st: "?loop = Inr st"
    unfolding cast_unfold by (cases ?loop) simp_all
  obtain casted obj' where pair: "st = (casted, obj')" by (cases st)
  from castFields_record [OF st [unfolded pair]] obtain fs' where
    fs': "obj' = JObj fs'" "map fst fs' = map fst fs" by auto
  with assms(1) have d: "distinct (map fst fs')" by simp
  let ?r = "JObj (foldl (\<lambda>acc (k, v). AList.update k v acc) fs' casted)"
  have loop: "?loop = Inr (casted, JObj fs')"
    using st pair fs'(1) by simp
  have "out = \<lparr> returned = ?r, inputAfter = (if rewriteFields ?opts then ?r else JObj fs'),
                sameObject = rewriteFields ?opts \<rparr>"
  proof (cases "rewriteFields ?opts")
    case True
    with assms(2) show ?thesis
      unfolding cast_unfold loop by (simp add: objectAssign_rewrite)
  next
    case False
    with assms(2) show ?thesis
      unfolding cast_unfold loop by (simp add: objectAssign_copy [OF d])
  qed
  then have "returned out = ?r"
    and "inputAfter out = (if rewriteFields ?opts then returned out else JObj fs')"
    and "sameObject out = rewriteFields ?opts"
    by simp_all
  with loop fs'(2) that show thesis by blast
qed

lemma cast_untouched:
  assumes step: "\<And>casted obj. getProp obj k = getProp (JObj fs) k \<Longrightarrow> map_of casted k = None
            \<Longrightarrow> castField H (\<lambda>d v. cast H v d) (resolveOptions options) k (casted, obj)
                = Inr (casted, obj)"
    and "distinct (map fst fs)" and "cast H (JObj fs) options = Inr out"
  shows "getProp (returned out) k = getProp (JObj fs) k"
    and "getProp (inputAfter out) k = getProp (JObj fs) k"
proof -
  from assms(2,3) obtain casted fs' where
    loop: "castFields H (\<lambda>d v. cast H v d) (resolveOptions options) (map fst fs) ([], JObj fs)
       = Inr (casted, JObj fs')"
    and "map fst fs' = map fst fs"
    and ret: "returned out = JObj (foldl (\<lambda>acc (k, v). AList.update k v acc) fs' casted)"
    and after: "inputAfter out = (if rewriteFields (resolveOptions options) then returned out else JObj fs')"
    and "sameObject out = rewriteFields (resolveOptions options)"
    by (rule cast_record)
  have "getProp (JObj fs') k = getProp (JObj fs) k \<and> map_of casted k = None"
  proof (rule castFields_untouched [where casted = "[]" and obj = "JObj fs"])
    show "castFields H (\<lambda>d v. cast H v d) (resolveOptions options) (map fst fs) ([], JObj fs)
       = Inr (casted, JObj fs')"
      by (rule loop)
    show "castField H (\<lambda>d v. cast H v d) (resolveOptions options) k (c, ob) = Inr (c, ob)"
      if "getProp ob k = getProp (JObj fs) k" "map_of c k = None" for c ob
      using that by (rule step)
  qed simp_all
  then have same: "getProp (JObj fs') k = getProp (JObj fs) k" and none: "map_of casted k = None"
    by simp_all
  from none ret same show r: "getProp (returned out) k = getProp (JObj fs) k"
    by (simp add: getProp_def map_of_foldl_update_absent)
  from after r same show "getProp (inputAfter out) k = getProp (JObj fs) k"
    by (simp split: if_splits)
qed

section \<open>Running the caster on concrete records\<close>

lemmas number_defs = stringToNumber_def trim_def isWhiteSpace_def unsignedDecimal_def
  signedDigits_def digitsValue_def digitValue_def isDigit_def lowerChar_def isDigitOf_def Let_def

lemmas option_defs = resolveOptions_def newTpsCasterOptions_def enableAllApply_def assignOptions_def
  defaultOptions_def noFlags_def

lemmas engine_defs = castField_def getProp_def schemaGate_def deepApplies_def deepOptsOf_def
  hasProperty_def objectPrototypeKeys_def objectAssign_def castFromString_def castSchemaField_def
  isNaN_def toLowerCase_def lowerChar_def datesMatchRegexDefault_def startsWithShape_def
  endsWithShape_def isDigit_def deepCast_def Let_def

lemma ecma_fields [simp]:
  "Number ecma = stringToNumber" "parseDate ecma = dateParse" "JSON_parse ecma = jsonParse"
  "JSON_stringify ecma = jsonStringify" "numberToString ecma = numberToText"
  by (simp_all add: ecma_def)

lemma toDouble_not_NaN: "toDouble q \<noteq> NaN"
  by (simp add: toDouble_def Let_def)

lemma toDouble_123: "toDouble 123 = Finite 123"
  by code_simp


lemma Number_123: "stringToNumber ''123'' = Finite 123"
  by (simp add: number_defs toDouble_123)


lemma Number_123_45: "stringToNumber ''123.45'' = toDouble (12345 / 100)"
  by (simp add: number_defs)

lemma Number_234_56: "stringToNumber ''234.56'' = toDouble (23456 / 100)"
  by (simp add: number_defs)

lemma Number_true: "stringToNumber ''true'' = NaN"
  by (simp add: number_defs)

lemma Number_hello: "stringToNumber ''hello'' = NaN"
  by (simp add: number_defs)

lemma Date_2021: "dateParse ''2021-01-01'' = Finite 1609459200000"
  by (simp add: dateParse_def digitField_def digitsValue_def digitValue_def isDigit_def lowerChar_def
      daysInMonth_def daysFromCivil_def Let_def)

lemma JSON_key_value:
  \<open>jsonParse ''{"key":"value"}'' = Some (JObj [(''key'', JStr ''value'')])\<close>
  by (simp add: jsonParse_def skipSpace_def isJsonSpace_def Let_def)

section \<open>The enable-all shortcut\<close>

lemma enableAllApply_undefined: "enableAllApply this None = this"
  by (simp add: enableAllApply_def)

text \<open>
  C1. With \<^verbatim>\<open>{enableAll: true}\<close> the resolved options should have the four toggles
  on. Both calls of \<^verbatim>\<open>enableAllApply\<close> pass no argument, so it returns at once and
  the toggles keep their default, false.
\<close>

theorem enableAll_leaves_toggles_off:
  "enableAll (resolveOptions (Some (PartialOptions (noFlags\<lparr>p_enableAll := Some True\<rparr>) None)))
   \<and> stringsToNumbers
        (resolveOptions (Some (PartialOptions (noFlags\<lparr>p_enableAll := Some True\<rparr>) None))) = False
   \<and> stringsToDates
        (resolveOptions (Some (PartialOptions (noFlags\<lparr>p_enableAll := Some True\<rparr>) None))) = False
   \<and> stringsToBooleans
        (resolveOptions (Some (PartialOptions (noFlags\<lparr>p_enableAll := Some True\<rparr>) None))) = False
   \<and> stringsToObjects
        (resolveOptions (Some (PartialOptions (noFlags\<lparr>p_enableAll := Some True\<rparr>) None))) = False"
  by (simp add: resolveOptions_def newTpsCasterOptions_def enableAllApply_def assignOptions_def
      defaultOptions_def noFlags_def)

section \<open>Fields the schema switches off\<close>

text \<open>
  C5. A field that the schema maps to \<^verbatim>\<open>false\<close> is returned with the value it had,
  whatever the toggles, the forced types and the deep casters say: the loop skips
  it before any of them is looked at. The record's property names are distinct, as
  those of every object are. The witness is the record \<^verbatim>\<open>{note:'hello'}\<close> with the
  schema \<^verbatim>\<open>{note:false}\<close> and the numbers toggle on.
\<close>

theorem schema_false_field_unchanged:
  assumes "schema (resolveOptions options) = Some s"
    and "map_of s k = Some (SBool False)"
    and "distinct (map fst fs)"
    and "cast H (JObj fs) options = Inr out"
  shows "getProp (returned out) k = getProp (JObj fs) k"
proof (rule cast_untouched(1) [OF _ assms(3,4)])
  fix casted obj
  from assms(1,2) have "schemaGate (resolveOptions options) k"
    by (simp add: schemaGate_def)
  then show "castField H (\<lambda>d v. cast H v d) (resolveOptions options) k (casted, obj)
             = Inr (casted, obj)"
    by (rule castField_gate)
qed

theorem schema_false_field_unchanged_witness:
  "cast ecma (JObj [(''note'', JStr ''hello'')])
     (Some (PartialOptions (noFlags\<lparr>p_stringsToNumbers := Some True,
                                     p_schema := Some [(''note'', SBool False)]\<rparr>) None))
   = Inr \<lparr> returned = JObj [(''note'', JStr ''hello'')],
           inputAfter = JObj [(''note'', JStr ''hello'')], sameObject = False \<rparr>
   \<and> getProp (JObj [(''note'', JStr ''hello'')]) ''note'' = JStr ''hello''"
proof -
  let ?options = "Some (PartialOptions (noFlags\<lparr>p_stringsToNumbers := Some True,
                                     p_schema := Some [(''note'', SBool False)]\<rparr>) None)"
  let ?out = "\<lparr> returned = JObj [(''note'', JStr ''hello'')],
           inputAfter = JObj [(''note'', JStr ''hello'')], sameObject = False \<rparr>"
  have run: "cast ecma (JObj [(''note'', JStr ''hello'')]) ?options = Inr ?out"
    by (subst cast.simps) (simp add: option_defs engine_defs)
  have "schema (resolveOptions ?options) = Some [(''note'', SBool False)]"
    by (simp add: option_defs)
  from schema_false_field_unchanged [OF this _ _ run, of "''note''"]
  have "getProp (returned ?out) ''note'' = getProp (JObj [(''note'', JStr ''hello'')]) ''note''"
    by simp
  with run show ?thesis by (simp add: getProp_def)
qed

section \<open>The example of the class comment\<close>

text \<open>
  C2. With the four toggles on, the record of the class comment comes back with
  \<open>id\<close> and \<open>price\<close> as numbers, \<open>date\<close> as the Date of 2021-01-01 (1609459200000
  milliseconds), \<open>is_active\<close> as true and \<open>data\<close> as the parsed object; the record
  given is left as it was. \<open>toDouble (12345 / 100)\<close> is the number the literal
  \<^verbatim>\<open>123.45\<close> denotes.
\<close>

theorem cast_example_all_heuristics:
  \<open>cast ecma
     (JObj [(''id'', JStr ''123''), (''price'', JStr ''123.45''), (''date'', JStr ''2021-01-01''),
            (''is_active'', JStr ''true''), (''data'', JStr ''{"key":"value"}'')])
     (Some (PartialOptions
        (noFlags\<lparr>p_stringsToNumbers := Some True, p_stringsToDates := Some True,
                  p_stringsToBooleans := Some True, p_stringsToObjects := Some True\<rparr>) None))
   = Inr \<lparr> returned =
             JObj [(''id'', JNum (Finite 123)), (''price'', JNum (toDouble (12345 / 100))),
                   (''date'', JDate (Finite 1609459200000)), (''is_active'', JBool True),
                   (''data'', JObj [(''key'', JStr ''value'')])],
           inputAfter =
             JObj [(''id'', JStr ''123''), (''price'', JStr ''123.45''), (''date'', JStr ''2021-01-01''),
                   (''is_active'', JStr ''true''), (''data'', JStr ''{"key":"value"}'')],
           sameObject = False \<rparr>\<close>
  by (subst cast.simps)
    (simp add: option_defs engine_defs Number_123 Number_123_45 Number_true Date_2021
      JSON_key_value toDouble_not_NaN)

section \<open>Exceptions\<close>

lemma cast_null_rewrite:
  "rewriteFields (resolveOptions options) \<Longrightarrow> cast H JNull options = Inl TypeError"
  by (subst cast.simps) (simp add: objectAssign_def)

text \<open>
  C3. \<^verbatim>\<open>cast\<close> should never throw. The guard at its head lets null through
  (\<^verbatim>\<open>typeof null\<close> is object), and with \<^verbatim>\<open>rewriteFields\<close> the result is assembled by
  \<^verbatim>\<open>Object.assign(null, casted)\<close>, which throws a TypeError. A null element of an
  array under a deep caster that rewrites reaches this: \<^verbatim>\<open>{prices:[null]}\<close> with
  \<^verbatim>\<open>{deepCasters:{prices:{rewriteFields:true}}}\<close>.
\<close>

theorem cast_throws_on_null_element:
  "cast ecma (JObj [(''prices'', JArr [JNull])])
     (Some (PartialOptions noFlags
        (Some [(''prices'', PartialOptions (noFlags\<lparr>p_rewriteFields := Some True\<rparr>) None)])))
   = Inl TypeError"
proof -
  define deepOpts where "deepOpts = PartialOptions (noFlags\<lparr>p_rewriteFields := Some True\<rparr>) None"
  have "rewriteFields (resolveOptions (Some deepOpts))"
    by (simp add: deepOpts_def option_defs)
  then have inner: "cast ecma JNull (Some deepOpts) = Inl TypeError"
    by (rule cast_null_rewrite)
  have "cast ecma (JObj [(''prices'', JArr [JNull])])
          (Some (PartialOptions noFlags (Some [(''prices'', deepOpts)]))) = Inl TypeError"
    by (subst cast.simps) (simp add: option_defs engine_defs inner)
  then show ?thesis by (simp add: deepOpts_def)
qed

section \<open>The input null\<close>

lemma rewriteFields_resolveOptions:
  "rewriteFields (resolveOptions options)
   = (case options of None \<Rightarrow> False | Some p \<Rightarrow> p_rewriteFields (flags p) = Some True)"
  by (auto simp: resolveOptions_def newTpsCasterOptions_def enableAllApply_def assignOptions_def
      defaultOptions_def Let_def split: option.splits)

text \<open>
  C10. Given null and options whose \<^verbatim>\<open>rewriteFields\<close> is false or missing, \<^verbatim>\<open>cast\<close>
  returns a new empty record: null passes the guard, the loop has nothing to visit,
  and the copy is assembled onto a fresh object.
\<close>

theorem cast_null_returns_empty_record:
  assumes "options = None \<or> (\<exists>p. options = Some p \<and> p_rewriteFields (flags p) \<noteq> Some True)"
  shows "cast H JNull options = Inr \<lparr> returned = JObj [], inputAfter = JNull, sameObject = False \<rparr>"
proof -
  from assms have "rewriteFields (resolveOptions options) = False"
    by (auto simp: rewriteFields_resolveOptions)
  then show ?thesis
    by (subst cast.simps) (simp add: objectAssign_def)
qed

theorem cast_null_returns_empty_record_witness:
  "(Some (PartialOptions (noFlags\<lparr>p_rewriteFields := Some False\<rparr>) None) = None
    \<or> (\<exists>p. Some (PartialOptions (noFlags\<lparr>p_rewriteFields := Some False\<rparr>) None) = Some p
           \<and> p_rewriteFields (flags p) \<noteq> Some True))
   \<and> cast ecma JNull (Some (PartialOptions (noFlags\<lparr>p_rewriteFields := Some False\<rparr>) None))
       = Inr \<lparr> returned = JObj [], inputAfter = JNull, sameObject = False \<rparr>
   \<and> cast ecma JNull None
       = Inr \<lparr> returned = JObj [], inputAfter = JNull, sameObject = False \<rparr>"
proof -
  have h: "Some (PartialOptions (noFlags\<lparr>p_rewriteFields := Some False\<rparr>) None) = None
    \<or> (\<exists>p. Some (PartialOptions (noFlags\<lparr>p_rewriteFields := Some False\<rparr>) None) = Some p
           \<and> p_rewriteFields (flags p) \<noteq> Some True)"
    by (simp add: noFlags_def)
  from cast_null_returns_empty_record [OF h, of ecma]
    cast_null_returns_empty_record [of None ecma] h
  show ?thesis by simp
qed

section \<open>Fields outside the schema\<close>

text \<open>
  C4. With \<^verbatim>\<open>onlySchema\<close> set, a field that is not in the schema should come back
  unchanged, also when no schema is given. The gate of the loop starts with
  \<^verbatim>\<open>opts.schema &&\<close>: without a schema it skips nothing, and \<^verbatim>\<open>{id:'123'}\<close> with
  \<^verbatim>\<open>{onlySchema:true, stringsToNumbers:true}\<close> comes back with the number 123. With a
  schema the gate tests \<^verbatim>\<open>key in opts.schema\<close>, which also finds the names every
  object inherits: \<^verbatim>\<open>{valueOf:'123'}\<close> with the empty schema is coerced as well.
\<close>

theorem onlySchema_counterexample:
  "cast ecma (JObj [(''id'', JStr ''123'')])
     (Some (PartialOptions (noFlags\<lparr>p_onlySchema := Some True,
                                     p_stringsToNumbers := Some True\<rparr>) None))
   = Inr \<lparr> returned = JObj [(''id'', JNum (Finite 123))],
           inputAfter = JObj [(''id'', JStr ''123'')], sameObject = False \<rparr>
   \<and> cast ecma (JObj [(''valueOf'', JStr ''123'')])
       (Some (PartialOptions (noFlags\<lparr>p_onlySchema := Some True, p_stringsToNumbers := Some True,
                                       p_schema := Some []\<rparr>) None))
     = Inr \<lparr> returned = JObj [(''valueOf'', JNum (Finite 123))],
             inputAfter = JObj [(''valueOf'', JStr ''123'')], sameObject = False \<rparr>"
proof
  show "cast ecma (JObj [(''id'', JStr ''123'')])
     (Some (PartialOptions (noFlags\<lparr>p_onlySchema := Some True,
                                     p_stringsToNumbers := Some True\<rparr>) None))
   = Inr \<lparr> returned = JObj [(''id'', JNum (Finite 123))],
           inputAfter = JObj [(''id'', JStr ''123'')], sameObject = False \<rparr>"
    by (subst cast.simps) (simp add: option_defs engine_defs Number_123)
  show "cast ecma (JObj [(''valueOf'', JStr ''123'')])
       (Some (PartialOptions (noFlags\<lparr>p_onlySchema := Some True, p_stringsToNumbers := Some True,
                                       p_schema := Some []\<rparr>) None))
     = Inr \<lparr> returned = JObj [(''valueOf'', JNum (Finite 123))],
             inputAfter = JObj [(''valueOf'', JStr ''123'')], sameObject = False \<rparr>"
    by (subst cast.simps) (simp add: option_defs engine_defs Number_123)
qed

text \<open>
  C4, as amended. When a schema is given, \<^verbatim>\<open>onlySchema\<close> is set, and the field's name is
  neither a key of the schema nor a name inherited from \<^verbatim>\<open>Object.prototype\<close>, the
  field is returned with the value it had.
\<close>

theorem onlySchema_field_unchanged:
  assumes "schema (resolveOptions options) = Some s"
    and "onlySchema (resolveOptions options)"
    and "map_of s k = None"
    and "k \<notin> set objectPrototypeKeys"
    and "distinct (map fst fs)"
    and "cast H (JObj fs) options = Inr out"
  shows "getProp (returned out) k = getProp (JObj fs) k"
proof (rule cast_untouched(1) [OF _ assms(5,6)])
  fix casted obj
  from assms(1-4) have "schemaGate (resolveOptions options) k"
    by (simp add: schemaGate_def hasProperty_def)
  then show "castField H (\<lambda>d v. cast H v d) (resolveOptions options) k (casted, obj)
             = Inr (casted, obj)"
    by (rule castField_gate)
qed

theorem onlySchema_field_unchanged_witness:
  "cast ecma (JObj [(''id'', JStr ''123''), (''qty'', JStr ''123'')])
     (Some (PartialOptions (noFlags\<lparr>p_onlySchema := Some True, p_stringsToNumbers := Some True,
                                     p_schema := Some [(''qty'', SBool True)]\<rparr>) None))
   = Inr \<lparr> returned = JObj [(''id'', JStr ''123''), (''qty'', JNum (Finite 123))],
           inputAfter = JObj [(''id'', JStr ''123''), (''qty'', JStr ''123'')],
           sameObject = False \<rparr>
   \<and> getProp (JObj [(''id'', JStr ''123''), (''qty'', JStr ''123'')]) ''id'' = JStr ''123''"
proof -
  let ?options = "Some (PartialOptions (noFlags\<lparr>p_onlySchema := Some True,
        p_stringsToNumbers := Some True, p_schema := Some [(''qty'', SBool True)]\<rparr>) None)"
  let ?fs = "[(''id'', JStr ''123''), (''qty'', JStr ''123'')]"
  let ?out = "\<lparr> returned = JObj [(''id'', JStr ''123''), (''qty'', JNum (Finite 123))],
           inputAfter = JObj ?fs, sameObject = False \<rparr>"
  have run: "cast ecma (JObj ?fs) ?options = Inr ?out"
    by (subst cast.simps) (simp add: option_defs engine_defs Number_123)
  have "schema (resolveOptions ?options) = Some [(''qty'', SBool True)]"
    and "onlySchema (resolveOptions ?options)"
    by (simp_all add: option_defs)
  from onlySchema_field_unchanged [OF this _ _ _ run, of "''id''"]
  have "getProp (returned ?out) ''id'' = getProp (JObj ?fs) ''id''"
    by (simp add: objectPrototypeKeys_def)
  with run show ?thesis by (simp add: getProp_def)
qed

section \<open>The heuristics of \<open>castFromString\<close>\<close>






section \<open>Deep casters\<close>

lemma castElements_all2:
  "castElements f vs = Inr (rs, afters)
   \<Longrightarrow> list_all2 (\<lambda>v r. \<exists>out. f v = Inr out \<and> returned out = r) vs rs
     \<and> list_all2 (\<lambda>v a. \<exists>out. f v = Inr out \<and> inputAfter out = a) vs afters"
proof (induction vs arbitrary: rs afters)
  case Nil
  then show ?case by simp
next
  case (Cons v vs)
  then obtain out rs' afters' where
    "f v = Inr out" "castElements f vs = Inr (rs', afters')"
    "rs = returned out # rs'" "afters = inputAfter out # afters'"
    by (auto split: sum.splits)
  with Cons.IH [of rs' afters'] show ?case by simp
qed

text \<open>The turn of a field that holds an array and has a deep caster of its own.\<close>

lemma castField_deep_array:
  assumes "getProp obj k = JArr vs"
    and "schemaGate opts k = False"
    and "deepCasters opts = Some dc" and "map_of dc k = Some d"
    and "castField H f opts k (casted, obj) = Inr (casted', obj')"
  shows "\<exists>rs afters. castElements (f (Some d)) vs = Inr (rs, afters)
           \<and> casted' = AList.update k (JArr rs) casted
           \<and> obj' = setProp obj k (JArr afters)"
  using assms
  by (auto simp: castField_def deepApplies_def deepOptsOf_def hasProperty_def deepCast_def Let_def
      split: sum.splits)

text \<open>Turns for other keys leave a field as it is, in the record and in \<open>casted\<close>.\<close>

lemma castFields_frame:
  "k \<notin> set keys \<Longrightarrow> castFields H f opts keys (casted, obj) = Inr (casted', obj')
   \<Longrightarrow> map_of casted' k = map_of casted k \<and> getProp obj' k = getProp obj k"
proof (induction keys arbitrary: casted obj)
  case Nil
  then show ?case by simp
next
  case (Cons key keys)
  then obtain c1 o1 where
    turn: "castField H f opts key (casted, obj) = Inr (c1, o1)" and
    rest: "castFields H f opts keys (c1, o1) = Inr (casted', obj')"
    by (auto split: sum.splits)
  from Cons.prems have "k \<noteq> key" "k \<notin> set keys" by auto
  from castField_frame [OF turn this(1)] Cons.IH [OF this(2) rest] show ?case by simp
qed

text \<open>
  In a loop over distinct keys, what a field ends as is what its own turn made of
  it, and that turn saw the field as it was at the start.
\<close>

lemma castFields_own_turn:
  assumes "distinct keys" and "k \<in> set keys"
    and "castFields H f opts keys (casted, obj) = Inr (casted', obj')"
  shows "\<exists>c1 o1 c2 o2. castField H f opts k (c1, o1) = Inr (c2, o2)
           \<and> getProp o1 k = getProp obj k \<and> map_of c1 k = map_of casted k
           \<and> map_of casted' k = map_of c2 k \<and> getProp obj' k = getProp o2 k"
  using assms
proof (induction keys arbitrary: casted obj)
  case Nil
  then show ?case by simp
next
  case (Cons key keys)
  then obtain c1 o1 where
    turn: "castField H f opts key (casted, obj) = Inr (c1, o1)" and
    rest: "castFields H f opts keys (c1, o1) = Inr (casted', obj')"
    by (auto split: sum.splits)
  show ?case
  proof (cases "key = k")
    case True
    with Cons.prems have "k \<notin> set keys" by simp
    from castFields_frame [OF this rest] turn True show ?thesis by blast
  next
    case False
    with Cons.prems have d: "distinct keys" and m: "k \<in> set keys" by auto
    from False have "k \<noteq> key" by simp
    from castField_frame [OF turn this] Cons.IH [OF d m rest] show ?thesis by auto
  qed
qed

lemma castField_distinct:
  assumes "castField H f opts key (casted, obj) = Inr (casted', obj')"
    and "distinct (map fst casted)"
  shows "distinct (map fst casted')"
  using castField_cases [OF assms(1)] assms(2) by (auto simp: distinct_update)

lemma castFields_distinct:
  "castFields H f opts keys (casted, obj) = Inr (casted', obj') \<Longrightarrow> distinct (map fst casted)
   \<Longrightarrow> distinct (map fst casted')"
proof (induction keys arbitrary: casted obj)
  case Nil
  then show ?case by simp
next
  case (Cons key keys)
  then obtain c1 o1 where
    turn: "castField H f opts key (casted, obj) = Inr (c1, o1)" and
    rest: "castFields H f opts keys (c1, o1) = Inr (casted', obj')"
    by (auto split: sum.splits)
  from Cons.IH [OF rest castField_distinct [OF turn Cons.prems(2)]] show ?case .
qed

text \<open>
  C7. A field that holds an array and has a deep caster should have every element
  cast with the deep caster's options. The schema gate comes first in the loop: with
  the schema \<^verbatim>\<open>{prices:false}\<close> the array of \<^verbatim>\<open>{prices:[{price:'123.45'}]}\<close> is
  returned as it is, though the deep caster alone makes a number of the price.
\<close>

theorem deep_caster_counterexample:
  "cast ecma (JObj [(''prices'', JArr [JObj [(''price'', JStr ''123.45'')]])])
     (Some (PartialOptions (noFlags\<lparr>p_schema := Some [(''prices'', SBool False)]\<rparr>)
        (Some [(''prices'', PartialOptions (noFlags\<lparr>p_stringsToNumbers := Some True\<rparr>) None)])))
   = Inr \<lparr> returned = JObj [(''prices'', JArr [JObj [(''price'', JStr ''123.45'')]])],
           inputAfter = JObj [(''prices'', JArr [JObj [(''price'', JStr ''123.45'')]])],
           sameObject = False \<rparr>
   \<and> cast ecma (JObj [(''price'', JStr ''123.45'')])
       (Some (PartialOptions (noFlags\<lparr>p_stringsToNumbers := Some True\<rparr>) None))
     = Inr \<lparr> returned = JObj [(''price'', JNum (toDouble (12345 / 100)))],
             inputAfter = JObj [(''price'', JStr ''123.45'')], sameObject = False \<rparr>"
proof
  show "cast ecma (JObj [(''price'', JStr ''123.45'')])
       (Some (PartialOptions (noFlags\<lparr>p_stringsToNumbers := Some True\<rparr>) None))
     = Inr \<lparr> returned = JObj [(''price'', JNum (toDouble (12345 / 100)))],
             inputAfter = JObj [(''price'', JStr ''123.45'')], sameObject = False \<rparr>"
    by (subst cast.simps) (simp add: option_defs engine_defs Number_123_45 toDouble_not_NaN)
  define deepOpts where "deepOpts = PartialOptions (noFlags\<lparr>p_stringsToNumbers := Some True\<rparr>) None"
  have "cast ecma (JObj [(''prices'', JArr [JObj [(''price'', JStr ''123.45'')]])])
     (Some (PartialOptions (noFlags\<lparr>p_schema := Some [(''prices'', SBool False)]\<rparr>)
        (Some [(''prices'', deepOpts)])))
   = Inr \<lparr> returned = JObj [(''prices'', JArr [JObj [(''price'', JStr ''123.45'')]])],
           inputAfter = JObj [(''prices'', JArr [JObj [(''price'', JStr ''123.45'')]])],
           sameObject = False \<rparr>"
    by (subst cast.simps) (simp add: option_defs engine_defs)
  then show "cast ecma (JObj [(''prices'', JArr [JObj [(''price'', JStr ''123.45'')]])])
     (Some (PartialOptions (noFlags\<lparr>p_schema := Some [(''prices'', SBool False)]\<rparr>)
        (Some [(''prices'', PartialOptions (noFlags\<lparr>p_stringsToNumbers := Some True\<rparr>) None)])))
   = Inr \<lparr> returned = JObj [(''prices'', JArr [JObj [(''price'', JStr ''123.45'')]])],
           inputAfter = JObj [(''prices'', JArr [JObj [(''price'', JStr ''123.45'')]])],
           sameObject = False \<rparr>"
    by (simp add: deepOpts_def)
qed

text \<open>
  C7, as amended. When the schema gate does not skip the field, the result holds under
  its name a new array with, for every element in order, what \<^verbatim>\<open>cast\<close> returns for
  that element with the deep caster's options.
\<close>

theorem deep_caster_array_elements:
  assumes "distinct (map fst fs)"
    and "map_of fs k = Some (JArr vs)"
    and "deepCasters (resolveOptions options) = Some dc"
    and "map_of dc k = Some d"
    and "schemaGate (resolveOptions options) k = False"
    and "cast H (JObj fs) options = Inr out"
  shows "\<exists>rs. getProp (returned out) k = JArr rs
           \<and> list_all2 (\<lambda>v r. \<exists>res. cast H v (Some d) = Inr res \<and> returned res = r) vs rs"
proof -
  let ?opts = "resolveOptions options"
  let ?f = "\<lambda>d v. cast H v d"
  from assms(1,6) obtain casted fs' where
    loop: "castFields H ?f ?opts (map fst fs) ([], JObj fs) = Inr (casted, JObj fs')"
    and "map fst fs' = map fst fs"
    and ret: "returned out = JObj (foldl (\<lambda>acc (k, v). AList.update k v acc) fs' casted)"
    and "inputAfter out = (if rewriteFields ?opts then returned out else JObj fs')"
    and "sameObject out = rewriteFields ?opts"
    by (rule cast_record)
  from assms(2) have "k \<in> set (map fst fs)"
    by (metis map_of_eq_None_iff option.distinct(1) set_map)
  from castFields_own_turn [OF assms(1) this loop] obtain c1 o1 c2 o2 where
    turn: "castField H ?f ?opts k (c1, o1) = Inr (c2, o2)"
    and val: "getProp o1 k = getProp (JObj fs) k"
    and final: "map_of casted k = map_of c2 k"
    by blast
  from val assms(2) have "getProp o1 k = JArr vs"
    by (simp add: getProp_def)
  from castField_deep_array [OF this assms(5,3,4) turn] obtain rs afters where
    elements: "castElements (?f (Some d)) vs = Inr (rs, afters)"
    and "c2 = AList.update k (JArr rs) c1"
    by blast
  with final have "map_of casted k = Some (JArr rs)"
    by (simp add: update_conv')
  moreover from castFields_distinct [OF loop] have "distinct (map fst casted)"
    by simp
  ultimately have "getProp (returned out) k = JArr rs"
    using ret by (simp add: getProp_def map_of_foldl_update_distinct)
  with castElements_all2 [OF elements] show ?thesis by blast
qed

theorem deep_caster_array_elements_witness:
  "cast ecma
     (JObj [(''prices'', JArr [JObj [(''price'', JStr ''123.45'')], JObj [(''price'', JStr ''234.56'')]])])
     (Some (PartialOptions noFlags
        (Some [(''prices'', PartialOptions (noFlags\<lparr>p_stringsToNumbers := Some True\<rparr>) None)])))
   = Inr \<lparr> returned =
             JObj [(''prices'', JArr [JObj [(''price'', JNum (toDouble (12345 / 100)))],
                                      JObj [(''price'', JNum (toDouble (23456 / 100)))]])],
           inputAfter =
             JObj [(''prices'', JArr [JObj [(''price'', JStr ''123.45'')],
                                      JObj [(''price'', JStr ''234.56'')]])],
           sameObject = False \<rparr>
   \<and> (\<exists>rs. JArr [JObj [(''price'', JNum (toDouble (12345 / 100)))],
                  JObj [(''price'', JNum (toDouble (23456 / 100)))]] = JArr rs
          \<and> list_all2
               (\<lambda>v r. \<exists>res. cast ecma v
                          (Some (PartialOptions (noFlags\<lparr>p_stringsToNumbers := Some True\<rparr>) None))
                        = Inr res \<and> returned res = r)
               [JObj [(''price'', JStr ''123.45'')], JObj [(''price'', JStr ''234.56'')]] rs)"
proof -
  define deepOpts where "deepOpts = PartialOptions (noFlags\<lparr>p_stringsToNumbers := Some True\<rparr>) None"
  let ?options = "Some (PartialOptions noFlags (Some [(''prices'', deepOpts)]))"
  let ?vs = "[JObj [(''price'', JStr ''123.45'')], JObj [(''price'', JStr ''234.56'')]]"
  let ?fs = "[(''prices'', JArr ?vs)]"
  let ?rs = "[JObj [(''price'', JNum (toDouble (12345 / 100)))],
              JObj [(''price'', JNum (toDouble (23456 / 100)))]]"
  let ?out = "\<lparr> returned = JObj [(''prices'', JArr ?rs)], inputAfter = JObj ?fs,
                sameObject = False \<rparr>"
  have first: "cast ecma (JObj [(''price'', JStr ''123.45'')]) (Some deepOpts)
     = Inr \<lparr> returned = JObj [(''price'', JNum (toDouble (12345 / 100)))],
             inputAfter = JObj [(''price'', JStr ''123.45'')], sameObject = False \<rparr>"
    unfolding deepOpts_def
    by (subst cast.simps) (simp add: option_defs engine_defs Number_123_45 toDouble_not_NaN)
  have second: "cast ecma (JObj [(''price'', JStr ''234.56'')]) (Some deepOpts)
     = Inr \<lparr> returned = JObj [(''price'', JNum (toDouble (23456 / 100)))],
             inputAfter = JObj [(''price'', JStr ''234.56'')], sameObject = False \<rparr>"
    unfolding deepOpts_def
    by (subst cast.simps) (simp add: option_defs engine_defs Number_234_56 toDouble_not_NaN)
  have run: "cast ecma (JObj ?fs) ?options = Inr ?out"
    by (subst cast.simps) (simp add: option_defs engine_defs first second)
  have dc: "deepCasters (resolveOptions ?options) = Some [(''prices'', deepOpts)]"
    and gate: "schemaGate (resolveOptions ?options) ''prices'' = False"
    by (simp_all add: option_defs schemaGate_def)
  from deep_caster_array_elements [OF _ _ dc _ gate run, of "?vs" deepOpts]
  have "\<exists>rs. getProp (returned ?out) ''prices'' = JArr rs
          \<and> list_all2 (\<lambda>v r. \<exists>res. cast ecma v (Some deepOpts) = Inr res \<and> returned res = r) ?vs rs"
    by simp
  then have "\<exists>rs. JArr ?rs = JArr rs
          \<and> list_all2 (\<lambda>v r. \<exists>res. cast ecma v (Some deepOpts) = Inr res \<and> returned res = r) ?vs rs"
    by (simp add: getProp_def)
  with run show ?thesis
    unfolding deepOpts_def by blast
qed

section \<open>The order of the heuristics in a field\<close>









section \<open>Copying and rewriting\<close>

lemma castElements_same:
  assumes "\<And>v out. f v = Inr out \<Longrightarrow> inputAfter out = v"
    and "castElements f vs = Inr (rs, afters)"
  shows "afters = vs"
  using assms(2)
proof (induction vs arbitrary: rs afters)
  case Nil
  then show ?case by simp
next
  case (Cons v vs)
  then obtain out rs' afters' where
    "f v = Inr out" "castElements f vs = Inr (rs', afters')" "afters = inputAfter out # afters'"
    by (auto split: sum.splits)
  with Cons.IH [of rs' afters'] assms(1) [of v out] show ?case by simp
qed

lemma deepCast_same:
  assumes "\<And>v out. f v = Inr out \<Longrightarrow> inputAfter out = v"
    and "deepCast f val = Inr (r, val')"
  shows "val' = val"
proof (cases val)
  case (JArr vs)
  with assms(2) obtain rs afters where "castElements f vs = Inr (rs, afters)" "val' = JArr afters"
    by (auto simp: deepCast_def split: sum.splits)
  with castElements_same [OF assms(1)] JArr show ?thesis by simp
qed (use assms in \<open>auto simp: deepCast_def split: sum.splits\<close>)

lemma castField_same:
  assumes "\<And>d v out. d \<in> deepOptions opts \<Longrightarrow> f d v = Inr out \<Longrightarrow> inputAfter out = v"
    and "castField H f opts key (casted, obj) = Inr (casted', obj')"
  shows "obj' = obj"
proof (cases "truthy (getProp obj key) \<and> deepApplies opts key (getProp obj key)")
  case True
  then obtain dc where dc: "deepCasters opts = Some dc"
    by (auto simp: deepApplies_def split: option.splits)
  have keep: "inputAfter out = v" if "f (deepOptsOf opts key) v = Inr out" for v out
    using assms(1) [OF deepOptsOf_in [OF dc] that] .
  from True have own: "map_of (ownProps obj) key = Some (getProp obj key)"
    by (simp add: getProp_own)
  from assms(2) have "obj' = obj \<or> (\<exists>r val'. deepCast (f (deepOptsOf opts key)) (getProp obj key)
                                         = Inr (r, val') \<and> obj' = setProp obj key val')"
    by (auto simp: castField_def Let_def
        split: if_splits sum.splits option.splits prod.splits schemaEntry.splits)
  then show ?thesis
  proof
    assume "obj' = obj"
    then show ?thesis .
  next
    assume "\<exists>r val'. deepCast (f (deepOptsOf opts key)) (getProp obj key) = Inr (r, val')
              \<and> obj' = setProp obj key val'"
    then obtain r val' where
      d: "deepCast (f (deepOptsOf opts key)) (getProp obj key) = Inr (r, val')"
      and o: "obj' = setProp obj key val'"
      by blast
    from deepCast_same [of "f (deepOptsOf opts key)", OF keep d] have "val' = getProp obj key" .
    with o own show ?thesis by (simp add: setProp_same)
  qed
next
  case False
  with assms(2) show ?thesis
    by (auto simp: castField_def Let_def
        split: if_splits sum.splits option.splits prod.splits schemaEntry.splits)
qed

lemma castFields_same:
  assumes "\<And>d v out. d \<in> deepOptions opts \<Longrightarrow> f d v = Inr out \<Longrightarrow> inputAfter out = v"
    and "castFields H f opts keys (casted, obj) = Inr (casted', obj')"
  shows "obj' = obj"
  using assms(2)
proof (induction keys arbitrary: casted obj)
  case Nil
  then show ?case by simp
next
  case (Cons key keys)
  then obtain c1 o1 where
    turn: "castField H f opts key (casted, obj) = Inr (c1, o1)" and
    rest: "castFields H f opts keys (c1, o1) = Inr (casted', obj')"
    by (auto split: sum.splits)
  have "o1 = obj"
  proof (rule castField_same [where f = f and opts = opts])
    show "castField H f opts key (casted, obj) = Inr (c1, o1)"
      by (rule turn)
    show "inputAfter out = v" if "d \<in> deepOptions opts" "f d v = Inr out" for d v out
      using that by (rule assms(1))
  qed
  with Cons.IH [OF rest] show ?case by simp
qed

lemma rewriteFields_copiesOnly:
  "(case options of None \<Rightarrow> True | Some p \<Rightarrow> copiesOnly p)
   \<Longrightarrow> rewriteFields (resolveOptions options) = False"
  by (cases options; cases "the options")
    (auto simp: rewriteFields_resolveOptions)

lemma deepOptions_copiesOnly:
  assumes "case options of None \<Rightarrow> True | Some p \<Rightarrow> copiesOnly p"
    and "d \<in> deepOptions (resolveOptions options)"
  shows "case d of None \<Rightarrow> True | Some p \<Rightarrow> copiesOnly p"
proof (cases d)
  case None
  then show ?thesis by simp
next
  case (Some d')
  with assms(2) obtain p l where p: "options = Some p" "p_deepCasters p = Some l" "d' \<in> snd ` set l"
    by (auto simp: deepOptions_def deepCasters_resolveOptions split: option.splits)
  with assms(1) have "list_all (\<lambda>kd. copiesOnly (snd kd)) l"
    by (cases p) simp
  with p(3) have "copiesOnly d'"
    by (auto simp: list_all_iff)
  with Some show ?thesis by simp
qed

text \<open>
  With options that never rewrite, here and in every deep caster below, \<^verbatim>\<open>cast\<close>
  leaves what it was given as it was.
\<close>

lemma cast_copiesOnly:
  "(case options of None \<Rightarrow> True | Some p \<Rightarrow> copiesOnly p) \<Longrightarrow> cast H obj options = Inr out
   \<Longrightarrow> inputAfter out = obj"
proof (induction H obj options arbitrary: out rule: cast.induct)
  case (1 H obj options)
  show ?case
  proof (cases "typeof obj = ''object''")
    case False
    with "1.prems"(2) show ?thesis
      by (subst (asm) cast.simps) auto
  next
    case True
    let ?opts = "resolveOptions options"
    let ?f = "\<lambda>d v. cast H v d"
    have deep: "inputAfter res = v" if "d \<in> deepOptions ?opts" "?f d v = Inr res" for d v res
      using "1.IH" [OF True refl that(1) deepOptions_copiesOnly [OF "1.prems"(1) that(1)] that(2)] .
    have copy: "rewriteFields ?opts = False"
      using "1.prems"(1) by (rule rewriteFields_copiesOnly)
    from "1.prems"(2) True copy obtain casted obj' where
      loop: "castFields H ?f ?opts (map fst (ownProps obj)) ([], obj) = Inr (casted, obj')"
      and after: "inputAfter out = obj'"
      by (subst (asm) cast.simps) (auto simp: Let_def split: sum.splits)
    have "obj' = obj"
    proof (rule castFields_same [where f = ?f and opts = ?opts])
      show "castFields H ?f ?opts (map fst (ownProps obj)) ([], obj) = Inr (casted, obj')"
        by (rule loop)
      show "inputAfter res = v" if "d \<in> deepOptions ?opts" "cast H v d = Inr res" for d v res
        using that by (rule deep)
    qed
    with after show ?thesis by simp
  qed
qed

text \<open>
  C8. With \<^verbatim>\<open>rewriteFields\<close> false the object given should be unmodified after the
  call. The flag of the call governs only the object itself: a deep caster with its
  own \<^verbatim>\<open>rewriteFields\<close> writes onto the nested objects, which the object given still
  holds. After \<^verbatim>\<open>cast({items:[{ok:'true'}]},
  {deepCasters:{items:{rewriteFields:true, stringsToBooleans:true}}})\<close> the object given
  holds \<^verbatim>\<open>{items:[{ok:true}]}\<close>.
\<close>

theorem rewriteFields_counterexample:
  "rewriteFields (resolveOptions (Some (PartialOptions noFlags
      (Some [(''items'', PartialOptions (noFlags\<lparr>p_rewriteFields := Some True,
                                                   p_stringsToBooleans := Some True\<rparr>) None)]))))
   = False
   \<and> cast ecma (JObj [(''items'', JArr [JObj [(''ok'', JStr ''true'')]])])
       (Some (PartialOptions noFlags
          (Some [(''items'', PartialOptions (noFlags\<lparr>p_rewriteFields := Some True,
                                                       p_stringsToBooleans := Some True\<rparr>) None)])))
     = Inr \<lparr> returned = JObj [(''items'', JArr [JObj [(''ok'', JBool True)]])],
             inputAfter = JObj [(''items'', JArr [JObj [(''ok'', JBool True)]])],
             sameObject = False \<rparr>"
proof
  define deepOpts where "deepOpts = PartialOptions (noFlags\<lparr>p_rewriteFields := Some True,
                                                   p_stringsToBooleans := Some True\<rparr>) None"
  have inner: "cast ecma (JObj [(''ok'', JStr ''true'')]) (Some deepOpts)
     = Inr \<lparr> returned = JObj [(''ok'', JBool True)], inputAfter = JObj [(''ok'', JBool True)],
             sameObject = True \<rparr>"
    unfolding deepOpts_def
    by (subst cast.simps) (simp add: option_defs engine_defs)
  have "cast ecma (JObj [(''items'', JArr [JObj [(''ok'', JStr ''true'')]])])
       (Some (PartialOptions noFlags (Some [(''items'', deepOpts)])))
     = Inr \<lparr> returned = JObj [(''items'', JArr [JObj [(''ok'', JBool True)]])],
             inputAfter = JObj [(''items'', JArr [JObj [(''ok'', JBool True)]])],
             sameObject = False \<rparr>"
    by (subst cast.simps) (simp add: option_defs engine_defs inner indexKey.simps)
  then show "cast ecma (JObj [(''items'', JArr [JObj [(''ok'', JStr ''true'')]])])
       (Some (PartialOptions noFlags
          (Some [(''items'', PartialOptions (noFlags\<lparr>p_rewriteFields := Some True,
                                                       p_stringsToBooleans := Some True\<rparr>) None)])))
     = Inr \<lparr> returned = JObj [(''items'', JArr [JObj [(''ok'', JBool True)]])],
             inputAfter = JObj [(''items'', JArr [JObj [(''ok'', JBool True)]])],
             sameObject = False \<rparr>"
    by (simp add: deepOpts_def)
  show "rewriteFields (resolveOptions (Some (PartialOptions noFlags
      (Some [(''items'', PartialOptions (noFlags\<lparr>p_rewriteFields := Some True,
                                                   p_stringsToBooleans := Some True\<rparr>) None)]))))
   = False"
    by (simp add: option_defs)
qed

text \<open>
  C8, as amended. For a record: with \<^verbatim>\<open>rewriteFields\<close> the value returned is the object
  given, which holds the result; without it the value returned is a new object, and
  the object given is as it was when no deep caster below rewrites either.
\<close>

theorem rewriteFields_effect:
  assumes "cast H (JObj fs) options = Inr out"
  shows "(rewriteFields (resolveOptions options)
            \<longrightarrow> sameObject out \<and> inputAfter out = returned out)
       \<and> (rewriteFields (resolveOptions options) = False
            \<longrightarrow> sameObject out = False
              \<and> ((case options of None \<Rightarrow> True | Some p \<Rightarrow> copiesOnly p)
                    \<longrightarrow> inputAfter out = JObj fs))"
proof -
  from assms have "rewriteFields (resolveOptions options)
            \<Longrightarrow> sameObject out \<and> inputAfter out = returned out"
    unfolding cast_unfold by (auto split: sum.splits prod.splits)
  moreover from assms have "rewriteFields (resolveOptions options) = False
            \<Longrightarrow> sameObject out = False"
    unfolding cast_unfold by (auto split: sum.splits prod.splits)
  moreover have "inputAfter out = JObj fs"
    if "case options of None \<Rightarrow> True | Some p \<Rightarrow> copiesOnly p"
    using that assms by (rule cast_copiesOnly)
  ultimately show ?thesis by blast
qed

theorem rewriteFields_effect_witness:
  "cast ecma (JObj [(''id'', JStr ''123'')])
     (Some (PartialOptions (noFlags\<lparr>p_rewriteFields := Some True,
                                     p_stringsToNumbers := Some True\<rparr>) None))
   = Inr \<lparr> returned = JObj [(''id'', JNum (Finite 123))],
           inputAfter = JObj [(''id'', JNum (Finite 123))], sameObject = True \<rparr>
   \<and> cast ecma (JObj [(''id'', JStr ''123'')])
       (Some (PartialOptions (noFlags\<lparr>p_stringsToNumbers := Some True\<rparr>) None))
     = Inr \<lparr> returned = JObj [(''id'', JNum (Finite 123))],
             inputAfter = JObj [(''id'', JStr ''123'')], sameObject = False \<rparr>
   \<and> copiesOnly (PartialOptions (noFlags\<lparr>p_stringsToNumbers := Some True\<rparr>) None)"
proof -
  let ?rw = "Some (PartialOptions (noFlags\<lparr>p_rewriteFields := Some True,
                                     p_stringsToNumbers := Some True\<rparr>) None)"
  let ?cp = "Some (PartialOptions (noFlags\<lparr>p_stringsToNumbers := Some True\<rparr>) None)"
  have rw: "rewriteFields (resolveOptions ?rw)" and cp: "rewriteFields (resolveOptions ?cp) = False"
    and only: "copiesOnly (PartialOptions (noFlags\<lparr>p_stringsToNumbers := Some True\<rparr>) None)"
    by (simp_all add: option_defs)
  have "\<exists>out. cast ecma (JObj [(''id'', JStr ''123'')]) ?rw = Inr out
          \<and> returned out = JObj [(''id'', JNum (Finite 123))]"
    by (subst cast.simps) (simp add: option_defs engine_defs Number_123)
  then obtain out1 where
    run1: "cast ecma (JObj [(''id'', JStr ''123'')]) ?rw = Inr out1"
    and ret1: "returned out1 = JObj [(''id'', JNum (Finite 123))]"
    by blast
  from rewriteFields_effect [OF run1] rw ret1
  have "out1 = \<lparr> returned = JObj [(''id'', JNum (Finite 123))],
           inputAfter = JObj [(''id'', JNum (Finite 123))], sameObject = True \<rparr>"
    by (cases out1) simp
  with run1 have first: "cast ecma (JObj [(''id'', JStr ''123'')]) ?rw
      = Inr \<lparr> returned = JObj [(''id'', JNum (Finite 123))],
           inputAfter = JObj [(''id'', JNum (Finite 123))], sameObject = True \<rparr>"
    by simp
  have "\<exists>out. cast ecma (JObj [(''id'', JStr ''123'')]) ?cp = Inr out
          \<and> returned out = JObj [(''id'', JNum (Finite 123))]"
    by (subst cast.simps) (simp add: option_defs engine_defs Number_123)
  then obtain out2 where
    run2: "cast ecma (JObj [(''id'', JStr ''123'')]) ?cp = Inr out2"
    and ret2: "returned out2 = JObj [(''id'', JNum (Finite 123))]"
    by blast
  from rewriteFields_effect [OF run2] cp only ret2
  have "out2 = \<lparr> returned = JObj [(''id'', JNum (Finite 123))],
           inputAfter = JObj [(''id'', JStr ''123'')], sameObject = False \<rparr>"
    by (cases out2) simp
  with run2 first only show ?thesis by simp
qed

section \<open>Casting twice\<close>








end
